theory Spec2Isabelle
  imports Main
begin

section \<open>Strings as the scripts see them\<close>

text \<open>
  A JavaScript string is modelled as a \<^typ>\<open>string\<close>, one \<^typ>\<open>char\<close> per code unit
  (code units 0 to 255 only). Offsets into the projected buffer are \<^typ>\<open>int\<close>, because the
  source computes them with subtraction and nothing keeps them non-negative.
\<close>

abbreviation LF :: char where "LF \<equiv> CHR 0x0A"
abbreviation CR :: char where "CR \<equiv> CHR 0x0D"

text \<open>The members of the regular-expression class \<open>\s\<close> among the code units 0 to 255.\<close>

definition is_space :: "char \<Rightarrow> bool" where
  "is_space c \<longleftrightarrow> c \<in> {CHR 0x09, CHR 0x0A, CHR 0x0B, CHR 0x0C, CHR 0x0D, CHR 0x20, CHR 0xA0}"

text \<open>\<open>md.replace(/\r\n/g, '\n')\<close> and \<open>.replace(/\r/g, '\n')\<close>.\<close>

fun replace_crlf :: "string \<Rightarrow> string" where
  "replace_crlf (a # b # s) =
     (if a = CR \<and> b = LF then LF # replace_crlf s else a # replace_crlf (b # s))"
| "replace_crlf s = s"

definition replace_cr :: "string \<Rightarrow> string" where
  "replace_cr s = map (\<lambda>c. if c = CR then LF else c) s"

text \<open>\<open>s.split(d)\<close> for a one-character separator: the empty string gives one empty piece.\<close>

fun split_on :: "char \<Rightarrow> string \<Rightarrow> string list" where
  "split_on d [] = [[]]"
| "split_on d (x # xs) =
     (if x = d then [] # split_on d xs
      else (case split_on d xs of
              l # ls \<Rightarrow> (x # l) # ls
            | [] \<Rightarrow> [[x]]))"

definition md_lines :: "string \<Rightarrow> string list" where
  "md_lines md = split_on LF (replace_cr (replace_crlf md))"

section \<open>Markdown to Docs: plain text and style ranges (scripts/mdToDocs.js)\<close>

text \<open>
  The mapping configuration \<open>config/md-mapping.json\<close> is read by the script but is not part
  of the sources; it is a parameter here. A field that is absent or falsy is \<open>None\<close> or the
  empty string, and \<open>x || d\<close> then yields the default \<open>d\<close>.
\<close>

record md_mapping =
  h1 :: "string option"
  h2 :: "string option"
  h3 :: "string option"
  default_style :: "string option"
  useTitle :: bool
  subtitle_mode :: "string option"
  bold_marker :: "string option"
  italic_marker :: "string option"

definition or_default :: "string option \<Rightarrow> string \<Rightarrow> string" where
  "or_default v d = (case v of None \<Rightarrow> d | Some s \<Rightarrow> (if s = [] then d else s))"

text \<open>\<open>/^#{n}\s+/.test(line)\<close> for a fixed number \<open>n\<close> of hashes.\<close>

definition hashes_then_space :: "nat \<Rightarrow> string \<Rightarrow> bool" where
  "hashes_then_space n line =
     (case drop n line of
        [] \<Rightarrow> False
      | c # _ \<Rightarrow> take n line = replicate n (CHR ''#'') \<and> is_space c)"

definition paragraphStyleFor :: "md_mapping \<Rightarrow> string \<Rightarrow> string" where
  "paragraphStyleFor mapping line =
     (if hashes_then_space 1 line then or_default (h1 mapping) ''HEADING_1''
      else if hashes_then_space 2 line then or_default (h2 mapping) ''HEADING_2''
      else if hashes_then_space 3 line then or_default (h3 mapping) ''HEADING_3''
      else or_default (default_style mapping) ''NORMAL_TEXT'')"

text \<open>\<open>line.replace(/^#{1,6}\s+/, '')\<close>: one to six hashes, then all the white space after them.\<close>

definition stripHeadingMarkers :: "string \<Rightarrow> string" where
  "stripHeadingMarkers line =
     (let n = length (takeWhile (\<lambda>c. c = CHR ''#'') line);
          rest = drop n line
      in if 1 \<le> n \<and> n \<le> 6 \<and> rest \<noteq> [] \<and> is_space (hd rest)
         then dropWhile is_space rest else line)"

text \<open>
  The fence test \<open>/^```\s*([a-zA-Z0-9_-]+)?\s*$/\<close>. White space and tag characters are
  disjoint classes, so the greedy reading is the only one: three backticks, white space, an
  optional tag, white space, end of line. The result is the tag (\<open>fenceMatch[1] || ''\<close>).
\<close>

definition is_tag_char :: "char \<Rightarrow> bool" where
  "is_tag_char c \<longleftrightarrow>
     (let n = (of_char c :: nat)
      in (97 \<le> n \<and> n \<le> 122) \<or> (65 \<le> n \<and> n \<le> 90) \<or> (48 \<le> n \<and> n \<le> 57) \<or>
         c = CHR ''_'' \<or> c = CHR ''-'')"

definition fenceMatch :: "string \<Rightarrow> string option" where
  "fenceMatch original =
     (if take 3 original = ''```'' then
        (let r1 = dropWhile is_space (drop 3 original);
             tag = takeWhile is_tag_char r1;
             r2 = dropWhile is_space (dropWhile is_tag_char r1)
         in if r2 = [] then Some tag else None)
      else None)"

subsection \<open>Inline scanning\<close>

text \<open>
  The three inline expressions \<open>/\*\*([^*]+)\*\*/g\<close>, \<open>/\*([^*]+)\*/g\<close> and
  \<open>/_([^_]+)_/g\<close> have one shape: a marker of \<open>k\<close> copies of a character \<open>c\<close>, a
  non-empty run of characters other than \<open>c\<close>, and the marker again. The run is greedy and
  ends at the first \<open>c\<close>, so a match at a position is decided without backtracking.
\<close>

datatype marker = Bold | ItalicStar | ItalicUnderscore

fun marker_len :: "marker \<Rightarrow> nat" where
  "marker_len Bold = 2"
| "marker_len ItalicStar = 1"
| "marker_len ItalicUnderscore = 1"

fun marker_char :: "marker \<Rightarrow> char" where
  "marker_char Bold = CHR ''*''"
| "marker_char ItalicStar = CHR ''*''"
| "marker_char ItalicUnderscore = CHR ''_''"

text \<open>A match that starts at the head of \<open>s\<close>; the result is the captured group.\<close>

definition match_here :: "marker \<Rightarrow> string \<Rightarrow> string option" where
  "match_here m s =
     (let k = marker_len m; c = marker_char m; rest = drop k s;
          inner = takeWhile (\<lambda>x. x \<noteq> c) rest;
          after = dropWhile (\<lambda>x. x \<noteq> c) rest
      in if k \<le> length s \<and> take k s = replicate k c \<and> inner \<noteq> [] \<and>
            k \<le> length after \<and> take k after = replicate k c
         then Some inner else None)"

text \<open>The leftmost match in the suffix \<open>s\<close>, which starts at index \<open>p\<close> of the line.\<close>

fun search_from :: "marker \<Rightarrow> string \<Rightarrow> nat \<Rightarrow> (nat \<times> string) option" where
  "search_from m [] p = None"
| "search_from m (x # xs) p =
     (case match_here m (x # xs) of
        Some inner \<Rightarrow> Some (p, inner)
      | None \<Rightarrow> search_from m xs (Suc p))"

text \<open>\<open>re.exec(line)\<close> with \<open>re.lastIndex = from\<close>: the index of the match and its group.\<close>

definition re_exec :: "marker \<Rightarrow> string \<Rightarrow> nat \<Rightarrow> (nat \<times> string) option" where
  "re_exec m line from =
     (if length line < from then None else search_from m (drop from line) from)"

lemma match_here_length:
  "match_here m s = Some inner \<Longrightarrow> 2 * marker_len m + length inner \<le> length s"
proof -
  assume a: "match_here m s = Some inner"
  let ?k = "marker_len m"
  let ?rest = "drop ?k s"
  let ?P = "\<lambda>x. x \<noteq> marker_char m"
  from a have k: "?k \<le> length s" and i: "inner = takeWhile ?P ?rest"
    and l: "?k \<le> length (dropWhile ?P ?rest)"
    by (auto simp: match_here_def Let_def split: if_splits)
  have "length (takeWhile ?P ?rest) + length (dropWhile ?P ?rest) = length ?rest"
    by (metis length_append takeWhile_dropWhile_id)
  with k i l show ?thesis by simp
qed

lemma search_from_bounds:
  "search_from m s p = Some (idx, inner) \<Longrightarrow>
     p \<le> idx \<and> (idx - p) + 2 * marker_len m + length inner \<le> length s"
proof (induction s arbitrary: p)
  case Nil
  then show ?case by simp
next
  case (Cons x xs)
  show ?case
  proof (cases "match_here m (x # xs)")
    case None
    with Cons.prems have "search_from m xs (Suc p) = Some (idx, inner)" by simp
    from Cons.IH [OF this] show ?thesis by auto
  next
    case (Some a)
    with Cons.prems have "idx = p" "a = inner" by auto
    with Some match_here_length [of m "x # xs" inner] show ?thesis by simp
  qed
qed

lemma re_exec_bounds:
  "re_exec m line from = Some (idx, inner) \<Longrightarrow>
     from \<le> idx \<and> idx + 2 * marker_len m + length inner \<le> length line"
proof -
  assume a: "re_exec m line from = Some (idx, inner)"
  then have f: "from \<le> length line"
    and s: "search_from m (drop from line) from = Some (idx, inner)"
    by (auto simp: re_exec_def split: if_splits)
  from search_from_bounds [OF s] f show ?thesis by auto
qed

lemma marker_len_pos: "0 < marker_len m"
  by (cases m) auto

text \<open>
  The loop of \<open>applyInline\<close>. Its state is the line (rewritten at every match), \<open>offset\<close>, the
  expression's \<open>lastIndex\<close> and the ranges pushed so far. \<open>m.index\<close> is an index into the line
  as already rewritten, and the source subtracts \<open>offset\<close> from it.
\<close>

function applyInline_loop ::
  "marker \<Rightarrow> int \<Rightarrow> string \<Rightarrow> int \<Rightarrow> nat \<Rightarrow> (int \<times> int) list \<Rightarrow> string \<times> (int \<times> int) list" where
  "applyInline_loop m cursor line offset lastIndex acc =
     (case re_exec m line lastIndex of
        None \<Rightarrow> (line, acc)
      | Some (index, inner) \<Rightarrow>
          (let full_len = 2 * marker_len m + length inner;
               startInLine = int index - offset;
               endInLine = startInLine + int (length inner);
               acc' = acc @ [(cursor + startInLine, cursor + endInLine)];
               line' = take index line @ inner @ drop (index + full_len) line
           in applyInline_loop m cursor line'
                (offset + (int full_len - int (length inner))) (index + length inner) acc'))"
  by pat_completeness auto
termination
proof (relation "measure (\<lambda>(m, cursor, line, offset, lastIndex, acc). length line)")
  show "wf (measure (\<lambda>(m, cursor, line, offset, lastIndex, acc). length line))" by simp
next
  fix m :: marker and cursor :: int and line :: string and offset :: int
    and lastIndex :: nat and acc :: "(int \<times> int) list"
    and x2 and index :: nat and inner :: string
    and full_len startInLine endInLine acc' line'
  assume "re_exec m line lastIndex = Some x2" and "(index, inner) = x2"
    and fl: "full_len = 2 * marker_len m + length inner"
    and l': "line' = take index line @ inner @ drop (index + full_len) line"
  then have "re_exec m line lastIndex = Some (index, inner)" by simp
  from re_exec_bounds [OF this] have "index + full_len \<le> length line"
    by (simp add: fl)
  with marker_len_pos [of m] fl have "length line' < length line"
    by (simp add: l')
  then show "((m, cursor, line', offset + (int full_len - int (length inner)),
                index + length inner, acc'),
              (m, cursor, line, offset, lastIndex, acc))
             \<in> measure (\<lambda>(m, cursor, line, offset, lastIndex, acc). length line)"
    by simp
qed

definition applyInline :: "marker \<Rightarrow> int \<Rightarrow> string \<Rightarrow> string \<times> (int \<times> int) list" where
  "applyInline m cursor line = applyInline_loop m cursor line 0 0 []"

subsection \<open>The line loop\<close>

record para_range =
  p_start :: int
  p_end :: int
  p_style :: string

record text_range =
  t_start :: int
  t_end :: int
  bold :: bool
  italic :: bool

record md_state =
  plain :: string
  paraRanges :: "para_range list"
  textRanges :: "text_range list"
  cursor :: int
  inFence :: bool
  fenceLang :: string

definition md_init :: md_state where
  "md_init = \<lparr>plain = [], paraRanges = [], textRanges = [], cursor = 0,
              inFence = False, fenceLang = []\<rparr>"

definition bold_range :: "int \<times> int \<Rightarrow> text_range" where
  "bold_range se = \<lparr>t_start = fst se, t_end = snd se, bold = True, italic = False\<rparr>"

definition italic_range :: "int \<times> int \<Rightarrow> text_range" where
  "italic_range se = \<lparr>t_start = fst se, t_end = snd se, bold = False, italic = True\<rparr>"

text \<open>
  One iteration of \<open>for (let i = 0; i < lines.length; i++)\<close>. A fence line toggles
  \<open>inFence\<close> and is skipped. Every other line takes its style and its heading strip from
  \<open>inFence\<close>, and then goes through the three \<open>applyInline\<close> calls, which the source makes
  for every line.
\<close>

definition md_line :: "md_mapping \<Rightarrow> md_state \<Rightarrow> string \<Rightarrow> md_state" where
  "md_line mapping st original =
     (case fenceMatch original of
        Some tag \<Rightarrow>
          st\<lparr>inFence := \<not> inFence st,
             fenceLang := (if \<not> inFence st then tag else [])\<rparr>
      | None \<Rightarrow>
          (let namedStyleType =
                 (if inFence st then ''CODEBLOCK'' else paragraphStyleFor mapping original);
               line0 = (if inFence st then original else stripHeadingMarkers original);
               (line1, bolds) = applyInline Bold (cursor st) line0;
               (line2, stars) = applyInline ItalicStar (cursor st) line1;
               (line3, unders) = applyInline ItalicUnderscore (cursor st) line2;
               start = cursor st;
               end' = start + int (length line3)
           in st\<lparr>plain := plain st @ line3 @ [LF],
                 paraRanges := paraRanges st @
                   [\<lparr>p_start = start, p_end = end', p_style = namedStyleType\<rparr>],
                 textRanges := textRanges st @ map bold_range bolds @
                   map italic_range stars @ map italic_range unders,
                 cursor := end' + 1\<rparr>))"

definition md_build :: "md_mapping \<Rightarrow> string \<Rightarrow> md_state" where
  "md_build mapping md = foldl (md_line mapping) md_init (md_lines md)"

text \<open>\<open>if (mapping?.title?.useTitle && paraRanges.length > 0) paraRanges[0].style = 'TITLE'\<close>\<close>

definition enforce_title :: "md_mapping \<Rightarrow> para_range list \<Rightarrow> para_range list" where
  "enforce_title mapping prs =
     (case prs of
        [] \<Rightarrow> []
      | r # rs \<Rightarrow> (if useTitle mapping then r\<lparr>p_style := ''TITLE''\<rparr> # rs else r # rs))"

text \<open>The subtitle rule: the second paragraph, when one italic range covers it.\<close>

definition promote_subtitle ::
  "md_mapping \<Rightarrow> text_range list \<Rightarrow> para_range list \<Rightarrow> para_range list" where
  "promote_subtitle mapping trs prs =
     (case prs of
        r0 # second # rs \<Rightarrow>
          (if subtitle_mode mapping = Some ''italic'' \<and>
              (\<exists>r \<in> set trs. italic r \<and> t_start r \<le> p_start second \<and> t_end r \<ge> p_end second)
           then r0 # second\<lparr>p_style := ''SUBTITLE''\<rparr> # rs
           else prs)
      | _ \<Rightarrow> prs)"

text \<open>
  What the script hands to the remote document: the text it inserts, and the paragraph and
  text ranges it styles (each still to be shifted by one when the requests are built).
\<close>

definition mdToDocs :: "md_mapping \<Rightarrow> string \<Rightarrow> string \<times> para_range list \<times> text_range list" where
  "mdToDocs mapping md =
     (let st = md_build mapping md
      in (plain st,
          promote_subtitle mapping (textRanges st) (enforce_title mapping (paraRanges st)),
          textRanges st))"

text \<open>The mapping the script falls back to when the configuration file cannot be read.\<close>

definition fallback_mapping :: md_mapping where
  "fallback_mapping = \<lparr>h1 = Some ''HEADING_1'', h2 = Some ''HEADING_2'', h3 = Some ''HEADING_3'',
      default_style = Some ''NORMAL_TEXT'', useTitle = False, subtitle_mode = None,
      bold_marker = None, italic_marker = None\<rparr>"

section \<open>JSON values and the JavaScript operations the store uses\<close>

text \<open>
  \<open>mapping.json\<close> and \<open>changes.state.json\<close> hold whatever \<open>JSON.parse\<close> accepts. An
  object is the list of its own properties in the order JavaScript enumerates them (array
  indices ascending, then the other keys in order of creation). A property that is not
  there reads as \<open>undefined\<close>, which is \<open>None\<close>. Numbers are integers here; the scripts
  only ever test a number for being zero.

  Reading a property follows the prototype chain, so a name that \<open>Object.prototype\<close>
  defines is found on every value that has no own property of that name. What is found
  there is not JSON: it is a built-in method, or for \<open>__proto__\<close> the prototype object
  itself. \<open>JBuiltin name\<close> stands for it. It is truthy, it has no enumerable property of
  its own, \<open>JSON.parse\<close> never yields it and \<open>JSON.stringify\<close> leaves it out. The
  methods that arrays, strings and functions inherit beyond those of \<open>Object.prototype\<close>
  are not modelled; they could only be met by indexing a \<open>notes\<close> table that is not an
  object.
\<close>

datatype json =
  JNull | JBool bool | JNum int | JStr string | JArr "json list" | JObj "(string \<times> json) list"
  | JBuiltin string

datatype js_error =
  TypeError | RangeError | SyntaxError | IOError | RevisionMismatch | ApiError string

text \<open>\<open>ToBoolean\<close>, and the same for a value that may be \<open>undefined\<close>.\<close>

fun truthy :: "json \<Rightarrow> bool" where
  "truthy JNull = False"
| "truthy (JBool b) = b"
| "truthy (JNum n) = (n \<noteq> 0)"
| "truthy (JStr s) = (s \<noteq> [])"
| "truthy (JArr xs) = True"
| "truthy (JObj kvs) = True"
| "truthy (JBuiltin n) = True"

fun truthy_opt :: "json option \<Rightarrow> bool" where
  "truthy_opt None = False"
| "truthy_opt (Some v) = truthy v"

fun is_obj :: "json \<Rightarrow> bool" where
  "is_obj (JObj kvs) = True"
| "is_obj v = False"

text \<open>Array indices: the canonical decimal strings of the numbers below \<open>2^32 - 1\<close>.\<close>

definition is_digit :: "char \<Rightarrow> bool" where
  "is_digit c \<longleftrightarrow> 48 \<le> (of_char c :: nat) \<and> (of_char c :: nat) \<le> 57"

definition digits_val :: "string \<Rightarrow> int" where
  "digits_val s = foldl (\<lambda>n c. 10 * n + (int (of_char c) - 48)) 0 s"

definition array_index :: "string \<Rightarrow> nat option" where
  "array_index k =
     (if k \<noteq> [] \<and> list_all is_digit k \<and> (k = ''0'' \<or> hd k \<noteq> CHR ''0'') \<and>
         digits_val k < 4294967295
      then Some (nat (digits_val k)) else None)"

fun dec :: "nat \<Rightarrow> string" where
  "dec n = (if n < 10 then [char_of (48 + n)] else dec (n div 10) @ [char_of (48 + n mod 10)])"

declare dec.simps [simp del]

text \<open>The own enumerable properties of a value, as \<open>Object.entries\<close> and object spread see them.\<close>

fun own_props :: "json \<Rightarrow> (string \<times> json) list" where
  "own_props (JObj kvs) = kvs"
| "own_props (JArr xs) = zip (map dec [0..<length xs]) xs"
| "own_props (JStr s) = zip (map dec [0..<length s]) (map (\<lambda>c. JStr [c]) s)"
| "own_props v = []"

text \<open>The property names of \<open>Object.prototype\<close>, and what a value inherits under a name.\<close>

definition object_prototype_names :: "string list" where
  "object_prototype_names =
     [''constructor'', ''__defineGetter__'', ''__defineSetter__'', ''hasOwnProperty'',
      ''__lookupGetter__'', ''__lookupSetter__'', ''isPrototypeOf'', ''propertyIsEnumerable'',
      ''toString'', ''valueOf'', ''__proto__'', ''toLocaleString'']"

definition inherited :: "string \<Rightarrow> json option" where
  "inherited k = (if k \<in> set object_prototype_names then Some (JBuiltin k) else None)"

text \<open>
  \<open>v[k]\<close>: a \<open>TypeError\<close> on \<open>null\<close>, otherwise the own property, or else the inherited
  one, or else \<open>undefined\<close>.
\<close>

fun js_get :: "json \<Rightarrow> string \<Rightarrow> js_error + json option" where
  "js_get JNull k = Inl TypeError"
| "js_get (JObj kvs) k = Inr (case map_of kvs k of None \<Rightarrow> inherited k | Some v \<Rightarrow> Some v)"
| "js_get (JArr xs) k =
     (if k = ''length'' then Inr (Some (JNum (int (length xs))))
      else (case array_index k of
              Some i \<Rightarrow> Inr (if i < length xs then Some (xs ! i) else inherited k)
            | None \<Rightarrow> Inr (inherited k)))"
| "js_get (JStr s) k =
     (if k = ''length'' then Inr (Some (JNum (int (length s))))
      else (case array_index k of
              Some i \<Rightarrow> Inr (if i < length s then Some (JStr [s ! i]) else inherited k)
            | None \<Rightarrow> Inr (inherited k)))"
| "js_get v k = Inr (inherited k)"

text \<open>
  Defining a property on an object: an existing key keeps its place; a new array index goes
  before the first key it sorts below; any other new key goes last.
\<close>

definition sorts_before :: "string \<Rightarrow> string \<Rightarrow> bool" where
  "sorts_before k k' =
     (case array_index k of
        None \<Rightarrow> False
      | Some i \<Rightarrow> (case array_index k' of None \<Rightarrow> True | Some j \<Rightarrow> i < j))"

fun replace_value :: "string \<Rightarrow> json \<Rightarrow> (string \<times> json) list \<Rightarrow> (string \<times> json) list" where
  "replace_value k v [] = []"
| "replace_value k v ((k', v') # rest) =
     (if k' = k then (k, v) # rest else (k', v') # replace_value k v rest)"

fun insert_new :: "string \<Rightarrow> json \<Rightarrow> (string \<times> json) list \<Rightarrow> (string \<times> json) list" where
  "insert_new k v [] = [(k, v)]"
| "insert_new k v ((k', v') # rest) =
     (if sorts_before k k' then (k, v) # (k', v') # rest else (k', v') # insert_new k v rest)"

definition obj_put :: "string \<Rightarrow> json \<Rightarrow> (string \<times> json) list \<Rightarrow> (string \<times> json) list" where
  "obj_put k v kvs =
     (if map_of kvs k = None then insert_new k v kvs else replace_value k v kvs)"

text \<open>\<open>{ ...a, ...b }\<close> where \<open>a\<close> may be \<open>undefined\<close> and \<open>b\<close> is an object.\<close>

definition put_all :: "(string \<times> json) list \<Rightarrow> (string \<times> json) list \<Rightarrow> (string \<times> json) list" where
  "put_all acc kvs = foldl (\<lambda>acc (k, v). obj_put k v acc) acc kvs"

definition spread :: "json option \<Rightarrow> (string \<times> json) list \<Rightarrow> (string \<times> json) list" where
  "spread a b = put_all (case a of None \<Rightarrow> [] | Some v \<Rightarrow> own_props v) b"

text \<open>
  \<open>container[k] = { ... }\<close> in strict mode (the scripts are modules), as far as
  \<open>JSON.stringify\<close> shows it afterwards. On an object the property is defined, except
  that \<open>__proto__\<close>, unless the object has an own property of that name, is the inherited
  setter: it replaces the prototype and defines nothing. An array takes an index (padding
  with holes, written as \<open>null\<close>), refuses an object as its length, and keeps any other key
  as a property that is not serialised. A primitive container raises, except that
  \<open>__proto__\<close> again only calls the setter, which ignores a primitive. No container the
  scripts assign into is a built-in value; a property set on one would not be serialised.
\<close>

fun assign_record :: "json \<Rightarrow> string \<Rightarrow> (string \<times> json) list \<Rightarrow> js_error + json" where
  "assign_record JNull k r = Inl TypeError"
| "assign_record (JObj kvs) k r =
     (if k = ''__proto__'' \<and> map_of kvs k = None then Inr (JObj kvs)
      else Inr (JObj (obj_put k (JObj r) kvs)))"
| "assign_record (JArr xs) k r =
     (if k = ''length'' then Inl RangeError
      else (case array_index k of
              Some i \<Rightarrow>
                Inr (JArr (if i < length xs then xs[i := JObj r]
                           else xs @ replicate (i - length xs) JNull @ [JObj r]))
            | None \<Rightarrow> Inr (JArr xs)))"
| "assign_record (JBuiltin n) k r = Inr (JBuiltin n)"
| "assign_record v k r = (if k = ''__proto__'' then Inr v else Inl TypeError)"

section \<open>The binding store (lib/mapping.js)\<close>

text \<open>
  What \<open>fs.readFileSync\<close> followed by \<open>JSON.parse\<close> can meet: no file, a file that cannot
  be read, text that is not JSON, or a JSON value.
\<close>

datatype store_file = Absent | Unreadable | NotJson | Json json

definition empty_mapping :: json where
  "empty_mapping = JObj [(''notes'', JObj []), (''notebooks'', JObj [])]"

text \<open>The body of the \<open>try\<close> block of \<open>loadMapping\<close>; \<open>Inl\<close> is what it throws.\<close>

definition loadMapping_try :: "store_file \<Rightarrow> js_error + json" where
  "loadMapping_try f =
     (case f of
        Absent \<Rightarrow> Inl IOError
      | Unreadable \<Rightarrow> Inl IOError
      | NotJson \<Rightarrow> Inl SyntaxError
      | Json data \<Rightarrow>
          (case js_get data ''notes'' of
             Inl e \<Rightarrow> Inl e
           | Inr notes \<Rightarrow>
               (case js_get data ''notebooks'' of
                  Inl e \<Rightarrow> Inl e
                | Inr notebooks \<Rightarrow>
                    if \<not> truthy_opt notes \<and> \<not> truthy_opt notebooks
                    then Inr (JObj [(''notes'', data), (''notebooks'', JObj [])])
                    else
                      (case (if \<not> truthy_opt notes then assign_record data ''notes'' []
                             else Inr data) of
                         Inl e \<Rightarrow> Inl e
                       | Inr data1 \<Rightarrow>
                           (if \<not> truthy_opt notebooks then assign_record data1 ''notebooks'' []
                            else Inr data1)))))"

definition loadMapping :: "store_file \<Rightarrow> json" where
  "loadMapping f = (case loadMapping_try f of Inl e \<Rightarrow> empty_mapping | Inr m \<Rightarrow> m)"

text \<open>
  \<open>map.notes\<close>, about to be indexed: indexing \<open>undefined\<close> or \<open>null\<close> is a \<open>TypeError\<close>.
\<close>

definition notes_of :: "json \<Rightarrow> js_error + json" where
  "notes_of m =
     (case js_get m ''notes'' of
        Inl e \<Rightarrow> Inl e
      | Inr None \<Rightarrow> Inl TypeError
      | Inr (Some JNull) \<Rightarrow> Inl TypeError
      | Inr (Some notes) \<Rightarrow> Inr notes)"

text \<open>The map after its \<open>notes\<close> object has been changed in place.\<close>

definition with_notes :: "json \<Rightarrow> json \<Rightarrow> json" where
  "with_notes m notes = (case m of JObj kvs \<Rightarrow> JObj (obj_put ''notes'' notes kvs) | _ \<Rightarrow> m)"

text \<open>
  Each operation returns what the function returns, and the map it hands to \<open>saveMapping\<close>
  (\<open>None\<close> when it returns before saving).
\<close>

type_synonym store_result = "js_error + json \<times> json option"

definition bindNote :: "string \<Rightarrow> (string \<times> json) list \<Rightarrow> store_file \<Rightarrow> store_result" where
  "bindNote noteId binding f =
     (let m = loadMapping f in
      case notes_of m of
        Inl e \<Rightarrow> Inl e
      | Inr notes \<Rightarrow>
          (case js_get notes noteId of
             Inl e \<Rightarrow> Inl e
           | Inr old \<Rightarrow>
               (let merged = spread old binding in
                case assign_record notes noteId merged of
                  Inl e \<Rightarrow> Inl e
                | Inr notes' \<Rightarrow> Inr (JObj merged, Some (with_notes m notes')))))"

definition getBinding :: "string \<Rightarrow> store_file \<Rightarrow> js_error + json" where
  "getBinding noteId f =
     (case notes_of (loadMapping f) of
        Inl e \<Rightarrow> Inl e
      | Inr notes \<Rightarrow>
          (case js_get notes noteId of
             Inl e \<Rightarrow> Inl e
           | Inr None \<Rightarrow> Inr JNull
           | Inr (Some v) \<Rightarrow> Inr (if truthy v then v else JNull)))"

definition updateSyncCheckpoint ::
  "string \<Rightarrow> (string \<times> json) list \<Rightarrow> store_file \<Rightarrow> store_result" where
  "updateSyncCheckpoint noteId checkpoint f =
     (let m = loadMapping f in
      case notes_of m of
        Inl e \<Rightarrow> Inl e
      | Inr notes \<Rightarrow>
          (case js_get notes noteId of
             Inl e \<Rightarrow> Inl e
           | Inr old \<Rightarrow>
               if \<not> truthy_opt old then Inr (JNull, None)
               else
                 (let merged = spread old checkpoint in
                  case assign_record notes noteId merged of
                    Inl e \<Rightarrow> Inl e
                  | Inr notes' \<Rightarrow> Inr (JObj merged, Some (with_notes m notes')))))"

text \<open>
  \<open>map.notes[noteId].accessLost = true\<close>: on an object the flag is set; on an array or on
  an inherited built-in value it is a property that is not serialised; on a truthy
  primitive strict mode raises.
\<close>

definition markAccessLost :: "string \<Rightarrow> store_file \<Rightarrow> store_result" where
  "markAccessLost noteId f =
     (let m = loadMapping f in
      case notes_of m of
        Inl e \<Rightarrow> Inl e
      | Inr notes \<Rightarrow>
          (case js_get notes noteId of
             Inl e \<Rightarrow> Inl e
           | Inr old \<Rightarrow>
               if \<not> truthy_opt old then Inr (JNull, None)
               else
                 (case old of
                    Some (JObj r) \<Rightarrow>
                      (let r' = obj_put ''accessLost'' (JBool True) r in
                       case assign_record notes noteId r' of
                         Inl e \<Rightarrow> Inl e
                       | Inr notes' \<Rightarrow> Inr (JObj r', Some (with_notes m notes')))
                  | Some (JArr xs) \<Rightarrow> Inr (JArr xs, Some m)
                  | Some (JBuiltin n) \<Rightarrow> Inr (JBuiltin n, Some m)
                  | _ \<Rightarrow> Inl TypeError)))"

text \<open>
  \<open>findNoteIdByFileId\<close>: the first entry of \<open>map.notes\<close> whose \<open>fileId\<close> is strictly equal
  to the argument, which is a string or \<open>undefined\<close>.
\<close>

fun first_bound :: "string option \<Rightarrow> (string \<times> json) list \<Rightarrow> js_error + string option" where
  "first_bound fileId [] = Inr None"
| "first_bound fileId ((noteId, binding) # rest) =
     (case js_get binding ''fileId'' of
        Inl e \<Rightarrow> Inl e
      | Inr v \<Rightarrow> (if v = map_option JStr fileId then Inr (Some noteId)
                  else first_bound fileId rest))"

definition findNoteIdByFileId :: "string option \<Rightarrow> store_file \<Rightarrow> js_error + string option" where
  "findNoteIdByFileId fileId f =
     (case notes_of (loadMapping f) of
        Inl e \<Rightarrow> Inl e
      | Inr notes \<Rightarrow> first_bound fileId (own_props notes))"

subsection \<open>The earlier, flat form of the store\<close>

text \<open>
  An earlier version of \<open>lib/mapping.js\<close> keeps the bindings of the notes directly in the
  top-level object, which \<open>loadMapping\<close> returns as parsed (\<open>{}\<close> when reading or parsing
  fails).
\<close>

definition flat_loadMapping :: "store_file \<Rightarrow> json" where
  "flat_loadMapping f = (case f of Json data \<Rightarrow> data | _ \<Rightarrow> JObj [])"

definition flat_bindNote :: "string \<Rightarrow> (string \<times> json) list \<Rightarrow> store_file \<Rightarrow> store_result" where
  "flat_bindNote noteId binding f =
     (let m = flat_loadMapping f in
      case js_get m noteId of
        Inl e \<Rightarrow> Inl e
      | Inr old \<Rightarrow>
          (let merged = spread old binding in
           case assign_record m noteId merged of
             Inl e \<Rightarrow> Inl e
           | Inr m' \<Rightarrow> Inr (JObj merged, Some m')))"

definition flat_getBinding :: "string \<Rightarrow> store_file \<Rightarrow> js_error + json" where
  "flat_getBinding noteId f =
     (case js_get (flat_loadMapping f) noteId of
        Inl e \<Rightarrow> Inl e
      | Inr None \<Rightarrow> Inr JNull
      | Inr (Some v) \<Rightarrow> Inr (if truthy v then v else JNull))"

definition flat_updateSyncCheckpoint ::
  "string \<Rightarrow> (string \<times> json) list \<Rightarrow> store_file \<Rightarrow> store_result" where
  "flat_updateSyncCheckpoint noteId checkpoint f =
     (let m = flat_loadMapping f in
      case js_get m noteId of
        Inl e \<Rightarrow> Inl e
      | Inr old \<Rightarrow>
          if \<not> truthy_opt old then Inr (JNull, None)
          else
            (let merged = spread old checkpoint in
             case assign_record m noteId merged of
               Inl e \<Rightarrow> Inl e
             | Inr m' \<Rightarrow> Inr (JObj merged, Some m')))"

definition flat_markAccessLost :: "string \<Rightarrow> store_file \<Rightarrow> store_result" where
  "flat_markAccessLost noteId f =
     (let m = flat_loadMapping f in
      case js_get m noteId of
        Inl e \<Rightarrow> Inl e
      | Inr old \<Rightarrow>
          if \<not> truthy_opt old then Inr (JNull, None)
          else
            (case old of
               Some (JObj r) \<Rightarrow>
                 (let r' = obj_put ''accessLost'' (JBool True) r in
                  case assign_record m noteId r' of
                    Inl e \<Rightarrow> Inl e
                  | Inr m' \<Rightarrow> Inr (JObj r', Some m'))
             | Some (JArr xs) \<Rightarrow> Inr (JArr xs, Some m)
             | Some (JBuiltin n) \<Rightarrow> Inr (JBuiltin n, Some m)
             | _ \<Rightarrow> Inl TypeError))"

subsection \<open>Shapes of the store, for stating what the operations do\<close>

text \<open>The fields a record contributes to a merge: none when the record is \<open>undefined\<close>.\<close>

definition record_map :: "json option \<Rightarrow> string \<rightharpoonup> json" where
  "record_map a = (case a of None \<Rightarrow> Map.empty | Some v \<Rightarrow> map_of (own_props v))"

text \<open>A legacy flat map: an object every entry of which is a binding object.\<close>

definition flat_note_map :: "(string \<times> json) list \<Rightarrow> bool" where
  "flat_note_map kvs = list_all (\<lambda>(k, v). is_obj v) kvs"

text \<open>
  A namespaced map: an object with \<open>notes\<close> or \<open>notebooks\<close> (or both), each of them an
  object where it is present.
\<close>

definition namespaced_map :: "(string \<times> json) list \<Rightarrow> bool" where
  "namespaced_map kvs \<longleftrightarrow>
     (map_of kvs ''notes'' \<noteq> None \<or> map_of kvs ''notebooks'' \<noteq> None) \<and>
     (case map_of kvs ''notes'' of None \<Rightarrow> True | Some v \<Rightarrow> is_obj v) \<and>
     (case map_of kvs ''notebooks'' of None \<Rightarrow> True | Some v \<Rightarrow> is_obj v)"

definition has_both_maps :: "json \<Rightarrow> bool" where
  "has_both_maps m =
     (case m of
        JObj kvs \<Rightarrow>
          (case map_of kvs ''notes'' of
             Some (JObj n) \<Rightarrow> (case map_of kvs ''notebooks'' of Some (JObj b) \<Rightarrow> True | _ \<Rightarrow> False)
           | _ \<Rightarrow> False)
      | _ \<Rightarrow> False)"

definition fill :: "string \<Rightarrow> (string \<times> json) list \<Rightarrow> (string \<times> json) list" where
  "fill k kvs = (if map_of kvs k = None then obj_put k (JObj []) kvs else kvs)"

text \<open>
  The store files the operations are meant for: no usable file, a flat map that has no note
  called \<open>notes\<close> or \<open>notebooks\<close>, or a namespaced map.
\<close>

definition store_shape :: "store_file \<Rightarrow> bool" where
  "store_shape f =
     (case f of
        Json (JObj kvs) \<Rightarrow>
          (flat_note_map kvs \<and> map_of kvs ''notes'' = None \<and> map_of kvs ''notebooks'' = None) \<or>
          namespaced_map kvs
      | Json v \<Rightarrow> False
      | _ \<Rightarrow> True)"

section \<open>The remote document, as the scripts read it\<close>

text \<open>
  The part of a \<open>documents.get\<close> response the scripts look at. An optional field that is
  missing is \<open>None\<close>; \<open>el.paragraph.elements || []\<close> makes a missing list the empty one.
\<close>

record text_run =
  run_content :: "string option"
  run_bold :: bool
  run_italic :: bool

record doc_paragraph =
  elements :: "text_run option list"
  namedStyleType :: "string option"

record structural_element =
  el_paragraph :: "doc_paragraph option"
  endIndex :: "int option"

datatype tab =
  Tab (tabId: "string option") (body_content: "structural_element list option")
      (childTabs: "tab list")

record document =
  revisionId :: string
  tabs :: "tab list"

text \<open>\<open>getTabText\<close> of the push scripts, which is \<open>extractTabText\<close> of the poller.\<close>

definition run_text_of :: "text_run option \<Rightarrow> string" where
  "run_text_of se =
     (case se of None \<Rightarrow> [] | Some r \<Rightarrow> (case run_content r of None \<Rightarrow> [] | Some t \<Rightarrow> t))"

definition getTabText :: "tab \<Rightarrow> string" where
  "getTabText tab =
     (case body_content tab of
        None \<Rightarrow> []
      | Some els \<Rightarrow>
          concat (map (\<lambda>el. case el_paragraph el of
                                None \<Rightarrow> []
                              | Some p \<Rightarrow> concat (map run_text_of (elements p))) els))"

text \<open>
  \<open>findTab\<close> and \<open>findTabById\<close>: the tabs are searched breadth first, through a queue that
  takes the first tab off and puts its children at the end. The wanted id is the
  \<open>tabId\<close> of a binding or a command-line argument, so it is a JSON value or \<open>undefined\<close>;
  a tab's own id is a string or missing, and the comparison is \<open>===\<close>.
\<close>

fun tab_nodes :: "tab \<Rightarrow> nat" where
  "tab_nodes (Tab i c ts) = Suc (sum_list (map tab_nodes ts))"

function findTab_loop :: "json option \<Rightarrow> tab list \<Rightarrow> tab option" where
  "findTab_loop wanted [] = None"
| "findTab_loop wanted (t # stack) =
     (if map_option JStr (tabId t) = wanted then Some t
      else findTab_loop wanted (stack @ childTabs t))"
  by pat_completeness auto
termination
  by (relation "measure (\<lambda>(wanted, stack). sum_list (map tab_nodes stack))")
     (auto, case_tac t, simp)

definition findTab :: "json option \<Rightarrow> tab list \<Rightarrow> tab option" where
  "findTab wanted ts = findTab_loop wanted ts"

definition findTabById :: "document \<Rightarrow> json \<Rightarrow> tab option" where
  "findTabById doc wanted = findTab_loop (Some wanted) (tabs doc)"

subsection \<open>Rendering a tab as Markdown (scripts/changesPoller.js)\<close>

record md_run =
  r_text :: string
  r_bold :: bool
  r_italic :: bool

record md_para =
  runs :: "md_run list"
  style :: string

definition extractParagraphs :: "tab \<Rightarrow> md_para list" where
  "extractParagraphs tab =
     (case body_content tab of
        None \<Rightarrow> []
      | Some els \<Rightarrow>
          List.map_filter
            (\<lambda>el. case el_paragraph el of
                     None \<Rightarrow> None
                   | Some p \<Rightarrow>
                       Some \<lparr>runs = map (\<lambda>se. \<lparr>r_text = run_text_of se,
                                                r_bold = (case se of None \<Rightarrow> False | Some r \<Rightarrow> run_bold r),
                                                r_italic = (case se of None \<Rightarrow> False | Some r \<Rightarrow> run_italic r)\<rparr>)
                                       (elements p),
                             style = or_default (namedStyleType p) ''NORMAL_TEXT''\<rparr>)
            els)"

text \<open>\<open>s.replace(/\n+$/, '')\<close> and \<open>s.trim()\<close>.\<close>

definition strip_trailing_newlines :: "string \<Rightarrow> string" where
  "strip_trailing_newlines s = rev (dropWhile (\<lambda>c. c = LF) (rev s))"

definition trim :: "string \<Rightarrow> string" where
  "trim s = rev (dropWhile is_space (rev (dropWhile is_space s)))"

definition run_markdown :: "string \<Rightarrow> string \<Rightarrow> md_run \<Rightarrow> string" where
  "run_markdown boldMarker italicMarker r =
     (let chunk = strip_trailing_newlines (r_text r)
      in if chunk = [] then r_text r
         else (if r_bold r \<and> r_italic r
                 then boldMarker @ italicMarker @ chunk @ italicMarker @ boldMarker
               else if r_bold r then boldMarker @ chunk @ boldMarker
               else if r_italic r then italicMarker @ chunk @ italicMarker
               else chunk) @ drop (length chunk) (r_text r))"

definition runsToMarkdown :: "md_mapping \<Rightarrow> md_run list \<Rightarrow> string" where
  "runsToMarkdown mapping rs =
     concat (map (run_markdown (or_default (bold_marker mapping) ''**'')
                               (or_default (italic_marker mapping) ''*'')) rs)"

text \<open>\<open>paras.find(p => p.style === 'TITLE')\<close>, and the paragraphs other than that one.\<close>

fun take_title :: "md_para list \<Rightarrow> md_para option \<times> md_para list" where
  "take_title [] = (None, [])"
| "take_title (p # ps) =
     (if style p = ''TITLE'' then (Some p, ps)
      else (case take_title ps of (t, rest) \<Rightarrow> (t, p # rest)))"

fun body_lines :: "md_mapping \<Rightarrow> bool \<Rightarrow> md_para list \<Rightarrow> string list" where
  "body_lines mapping usedSubtitle [] = []"
| "body_lines mapping usedSubtitle (p # ps) =
     (let line = strip_trailing_newlines (runsToMarkdown mapping (runs p))
      in if \<not> usedSubtitle \<and> subtitle_mode mapping = Some ''italic'' \<and> style p = ''SUBTITLE''
         then (''_'' @ line @ ''_'') # body_lines mapping True ps
         else line # body_lines mapping usedSubtitle ps)"

fun join_lines :: "string list \<Rightarrow> string" where
  "join_lines [] = []"
| "join_lines [l] = l"
| "join_lines (l # ls) = l @ [LF] @ join_lines ls"

definition render_tab :: "md_mapping \<Rightarrow> tab \<Rightarrow> string" where
  "render_tab mapping tab =
     (case take_title (extractParagraphs tab) of
        (titlePara, others) \<Rightarrow>
          (let titleText =
                 (case titlePara of
                    None \<Rightarrow> []
                  | Some tp \<Rightarrow> trim (strip_trailing_newlines (runsToMarkdown mapping (runs tp))))
           in join_lines ((if titleText \<noteq> [] then [''# '' @ titleText] else []) @
                          body_lines mapping False others)))"

section \<open>The change poller (scripts/changesPoller.js)\<close>

text \<open>
  The remote side is a parameter: what \<open>changes.getStartPageToken\<close>, \<open>changes.list\<close> and
  \<open>documents.get\<close> answer (\<open>Inl\<close> when the call throws), and the time stamps that
  \<open>new Date().toISOString()\<close> gives at successive readings of the clock. Page tokens are
  JSON values, since the stored one comes out of \<open>changes.state.json\<close>.
\<close>

record change =
  fileId :: "string option"
  removed :: bool

record change_page =
  changes :: "change list"
  nextPageToken :: "json option"
  newStartPageToken :: "json option"

record remote =
  getStartPageToken :: "js_error + json option"
  changes_list :: "json \<Rightarrow> js_error + change_page"
  documents_get :: "string option \<Rightarrow> js_error + document"
  toISOString :: "nat \<Rightarrow> string"

text \<open>
  The local side: the two JSON files, the shadow files \<open>local/<noteId>.md\<close> (by note id),
  the clock, and a trace of the remote calls and file writes in the order they happen.
\<close>

datatype event =
  StartTokenRequest | ListRequest json | GetRequest "string option"
  | StateSaved json | ShadowWritten string string | MappingSaved json

record world =
  state_file :: store_file
  mapping_file :: store_file
  shadow :: "string \<Rightarrow> string option"
  clock :: nat
  trace :: "event list"

definition loadState :: "store_file \<Rightarrow> json" where
  "loadState f = (case f of Json v \<Rightarrow> v | _ \<Rightarrow> JObj [])"

text \<open>\<open>{ pageToken }\<close> as \<open>JSON.stringify\<close> writes it: an \<open>undefined\<close> token leaves \<open>{}\<close>.\<close>

definition state_of_token :: "json option \<Rightarrow> json" where
  "state_of_token t = JObj (case t of None \<Rightarrow> [] | Some v \<Rightarrow> [(''pageToken'', v)])"

definition saveState :: "json option \<Rightarrow> world \<Rightarrow> world" where
  "saveState t w =
     w\<lparr>state_file := Json (state_of_token t),
       trace := trace w @ [StateSaved (state_of_token t)]\<rparr>"

text \<open>
  \<open>initIfNeeded\<close> returns the stored token (\<open>Inr (Some t)\<close>), or \<open>null\<close> (\<open>Inr None\<close>) after
  it has fetched and saved the start token.
\<close>

definition initIfNeeded :: "remote \<Rightarrow> world \<Rightarrow> world \<times> (js_error + json option)" where
  "initIfNeeded env w =
     (case js_get (loadState (state_file w)) ''pageToken'' of
        Inl e \<Rightarrow> (w, Inl e)
      | Inr p \<Rightarrow>
          if truthy_opt p then (w, Inr p)
          else
            (let w1 = w\<lparr>trace := trace w @ [StartTokenRequest]\<rparr>
             in case getStartPageToken env of
                  Inl e \<Rightarrow> (w1, Inl e)
                | Inr pageToken \<Rightarrow> (saveState pageToken w1, Inr None)))"

definition apply_written :: "json option \<Rightarrow> world \<Rightarrow> world" where
  "apply_written written w =
     (case written of
        None \<Rightarrow> w
      | Some m \<Rightarrow> w\<lparr>mapping_file := Json m, trace := trace w @ [MappingSaved m]\<rparr>)"

text \<open>
  The pull of one change: get the document, find the bound tab, overwrite the shadow file
  with the rendered tab, update the binding. The second component is the error thrown, if
  any; what was written before the throw stays written.
\<close>

definition pull_note ::
  "md_mapping \<Rightarrow> remote \<Rightarrow> world \<Rightarrow> string option \<Rightarrow> string \<Rightarrow> json \<Rightarrow> world \<times> js_error option" where
  "pull_note mapping env w fid noteId wanted =
     (let w1 = w\<lparr>trace := trace w @ [GetRequest fid]\<rparr>
      in case documents_get env fid of
           Inl e \<Rightarrow> (w1, Some e)
         | Inr doc \<Rightarrow>
             (case findTabById doc wanted of
                None \<Rightarrow> (w1, None)
              | Some tab \<Rightarrow>
                  (let mdOut = render_tab mapping tab;
                       w2 = w1\<lparr>shadow := (shadow w1)(noteId \<mapsto> mdOut),
                               trace := trace w1 @ [ShadowWritten noteId mdOut]\<rparr>;
                       w3 = w2\<lparr>clock := Suc (clock w2)\<rparr>
                   in case updateSyncCheckpoint noteId
                             [(''lastKnownRevisionId'', JStr (revisionId doc)),
                              (''lastSyncTs'', JStr (toISOString env (clock w2)))]
                             (mapping_file w3) of
                        Inl e \<Rightarrow> (w3, Some e)
                      | Inr (ret, written) \<Rightarrow> (apply_written written w3, None))))"

text \<open>The body of \<open>for (const ch of data.changes || [])\<close>.\<close>

definition process_change ::
  "md_mapping \<Rightarrow> remote \<Rightarrow> world \<Rightarrow> change \<Rightarrow> world \<times> js_error option" where
  "process_change mapping env w ch =
     (case findNoteIdByFileId (fileId ch) (mapping_file w) of
        Inl e \<Rightarrow> (w, Some e)
      | Inr None \<Rightarrow> (w, None)
      | Inr (Some noteId) \<Rightarrow>
          if noteId = [] then (w, None)
          else if removed ch then
            (case markAccessLost noteId (mapping_file w) of
               Inl e \<Rightarrow> (w, Some e)
             | Inr (ret, written) \<Rightarrow> (apply_written written w, None))
          else
            (case getBinding noteId (mapping_file w) of
               Inl e \<Rightarrow> (w, Some e)
             | Inr binding \<Rightarrow>
                 if \<not> truthy binding then (w, None)
                 else
                   (case js_get binding ''tabId'' of
                      Inl e \<Rightarrow> (w, Some e)
                    | Inr None \<Rightarrow> (w, None)
                    | Inr (Some wanted) \<Rightarrow>
                        if \<not> truthy wanted then (w, None)
                        else pull_note mapping env w (fileId ch) noteId wanted)))"

fun process_changes ::
  "md_mapping \<Rightarrow> remote \<Rightarrow> world \<Rightarrow> change list \<Rightarrow> world \<times> js_error option" where
  "process_changes mapping env w [] = (w, None)"
| "process_changes mapping env w (ch # chs) =
     (case process_change mapping env w ch of
        (w', None) \<Rightarrow> process_changes mapping env w' chs
      | (w', Some e) \<Rightarrow> (w', Some e))"

text \<open>
  The page loop of \<open>processOnce\<close>. The remote side may hand out continuation tokens for
  ever, so the loop takes fuel, one unit per page; \<open>Running\<close> is the loop stopped with
  pages still to fetch, which is also where a process killed between two pages stands.
\<close>

datatype status = Finished | Threw js_error | Running

text \<open>\<open>data.newStartPageToken || pageToken\<close>\<close>

definition new_cursor :: "change_page \<Rightarrow> json \<Rightarrow> json" where
  "new_cursor data pageToken =
     (case newStartPageToken data of
        None \<Rightarrow> pageToken
      | Some t \<Rightarrow> if truthy t then t else pageToken)"

fun pages_loop :: "nat \<Rightarrow> md_mapping \<Rightarrow> remote \<Rightarrow> world \<Rightarrow> json \<Rightarrow> world \<times> status" where
  "pages_loop 0 mapping env w pageToken = (w, Running)"
| "pages_loop (Suc n) mapping env w pageToken =
     (if \<not> truthy pageToken then (w, Finished)
      else
        (let w1 = w\<lparr>trace := trace w @ [ListRequest pageToken]\<rparr>
         in case changes_list env pageToken of
              Inl e \<Rightarrow> (w1, Threw e)
            | Inr data \<Rightarrow>
                (case process_changes mapping env w1 (changes data) of
                   (w2, Some e) \<Rightarrow> (w2, Threw e)
                 | (w2, None) \<Rightarrow>
                     (case nextPageToken data of
                        Some next \<Rightarrow>
                          if truthy next then pages_loop n mapping env w2 next
                          else (saveState (Some (new_cursor data pageToken)) w2, Finished)
                      | None \<Rightarrow> (saveState (Some (new_cursor data pageToken)) w2, Finished)))))"

definition processOnce :: "nat \<Rightarrow> md_mapping \<Rightarrow> remote \<Rightarrow> world \<Rightarrow> world \<times> status" where
  "processOnce fuel mapping env w =
     (case js_get (loadState (state_file w)) ''pageToken'' of
        Inl e \<Rightarrow> (w, Threw e)
      | Inr None \<Rightarrow> (w, Finished)
      | Inr (Some pageToken) \<Rightarrow>
          if \<not> truthy pageToken then (w, Finished)
          else pages_loop fuel mapping env w pageToken)"

text \<open>
  The watch loop, one remote side per tick. An error of a tick is caught and logged, and
  the loop sleeps and goes on; it never returns.
\<close>

fun watch_loop :: "nat \<Rightarrow> md_mapping \<Rightarrow> remote list \<Rightarrow> world \<Rightarrow> world \<times> status" where
  "watch_loop fuel mapping [] w = (w, Running)"
| "watch_loop fuel mapping (env # envs) w =
     (case processOnce fuel mapping env w of
        (w', Running) \<Rightarrow> (w', Running)
      | (w', s) \<Rightarrow> watch_loop fuel mapping envs w')"

definition main ::
  "bool \<Rightarrow> nat \<Rightarrow> md_mapping \<Rightarrow> remote \<Rightarrow> remote list \<Rightarrow> world \<Rightarrow> world \<times> status" where
  "main watch fuel mapping env ticks w =
     (case initIfNeeded env w of
        (w1, Inl e) \<Rightarrow> (w1, Threw e)
      | (w1, Inr maybeToken) \<Rightarrow>
          if maybeToken = None \<and> \<not> watch then (w1, Finished)
          else if \<not> watch then processOnce fuel mapping env w1
          else watch_loop fuel mapping ticks w1)"

section \<open>Pull, compare, push (scripts/pullPush.js and scripts/pullPushByNote.js)\<close>

text \<open>
  The requests the scripts build, and the \<open>batchUpdate\<close> call that carries them together
  with \<open>writeControl.requiredRevisionId\<close>.
\<close>

datatype request =
  DeleteContentRange "json option" int int
  | InsertText "json option" int string

record batch =
  documentId :: "json option"
  requests :: "request list"
  requiredRevisionId :: string

text \<open>
  What a run of a script shows: how the process ends (an exit code, or an exception that
  nothing catches), what it prints, and the \<open>batchUpdate\<close> calls it submits.
\<close>

datatype outcome = Exit nat | Uncaught js_error

datatype message = Usage | NoBinding | TabNotFound | NoDiff | Pushed | PushFailed js_error

record push_run =
  outcome :: outcome
  messages :: "message list"
  submitted :: "batch list"

text \<open>
  \<open>endIndex\<close> of the last structural element of the tab's body (\<open>last.endIndex ?? 1\<close>);
  a body without content, or with none, makes the script throw.
\<close>

definition last_endIndex :: "tab \<Rightarrow> js_error + int" where
  "last_endIndex tab =
     (case body_content tab of
        None \<Rightarrow> Inl TypeError
      | Some els \<Rightarrow>
          if els = [] then Inl TypeError
          else Inr (case endIndex (last els) of None \<Rightarrow> 1 | Some n \<Rightarrow> n))"

definition replace_requests :: "json option \<Rightarrow> int \<Rightarrow> string \<Rightarrow> request list" where
  "replace_requests wanted end_index localText =
     (if end_index > 1 then [DeleteContentRange wanted 1 (end_index - 1)] else []) @
     [InsertText wanted 1 localText]"

text \<open>
  The common part of the two scripts, from \<open>// Pull\<close> on. Its surroundings are parameters:
  \<open>pulled\<close> is what \<open>documents.get\<close> answers, \<open>local_file\<close> what reading the local file
  gives, and \<open>batchUpdate\<close> what the remote service answers to an update (\<open>Inl\<close> is what a
  call throws). The two exit codes are the ones the scripts use for a missing tab and for a
  failed push.
\<close>

definition pull_compare_push ::
  "nat \<Rightarrow> nat \<Rightarrow> json option \<Rightarrow> json option \<Rightarrow> js_error + document \<Rightarrow> js_error + string \<Rightarrow>
     (batch \<Rightarrow> js_error + unit) \<Rightarrow> push_run" where
  "pull_compare_push no_tab_code failed_code docId wanted pulled local_file batchUpdate =
     (case pulled of
        Inl e \<Rightarrow> \<lparr>outcome = Uncaught e, messages = [], submitted = []\<rparr>
      | Inr meta \<Rightarrow>
          (case findTab wanted (tabs meta) of
             None \<Rightarrow> \<lparr>outcome = Exit no_tab_code, messages = [TabNotFound], submitted = []\<rparr>
           | Some tab \<Rightarrow>
               (case local_file of
                  Inl e \<Rightarrow> \<lparr>outcome = Uncaught e, messages = [], submitted = []\<rparr>
                | Inr localText \<Rightarrow>
                    if getTabText tab = localText
                    then \<lparr>outcome = Exit 0, messages = [NoDiff], submitted = []\<rparr>
                    else
                      (case last_endIndex tab of
                         Inl e \<Rightarrow> \<lparr>outcome = Uncaught e, messages = [], submitted = []\<rparr>
                       | Inr end_index \<Rightarrow>
                           (let b = \<lparr>documentId = docId,
                                     requests = replace_requests wanted end_index localText,
                                     requiredRevisionId = revisionId meta\<rparr>
                            in case batchUpdate b of
                                 Inr ok \<Rightarrow>
                                   \<lparr>outcome = Exit 0, messages = [Pushed], submitted = [b]\<rparr>
                               | Inl err \<Rightarrow>
                                   \<lparr>outcome = Exit failed_code, messages = [PushFailed err],
                                     submitted = [b]\<rparr>)))))"

text \<open>\<open>pullPush.js\<close>: document, tab and local file come from the command line.\<close>

definition pullPush ::
  "string \<Rightarrow> string \<Rightarrow> string \<Rightarrow> js_error + document \<Rightarrow> js_error + string \<Rightarrow>
     (batch \<Rightarrow> js_error + unit) \<Rightarrow> push_run" where
  "pullPush docArg tabArg localPath pulled local_file batchUpdate =
     (if docArg = [] \<or> tabArg = [] \<or> localPath = []
      then \<lparr>outcome = Exit 1, messages = [Usage], submitted = []\<rparr>
      else pull_compare_push 2 3 (Some (JStr docArg)) (Some (JStr tabArg)) pulled local_file
             batchUpdate)"

text \<open>\<open>pullPushByNote.js\<close>: document and tab come from the note's binding.\<close>

definition pullPushByNote ::
  "string \<Rightarrow> string \<Rightarrow> store_file \<Rightarrow> js_error + document \<Rightarrow> js_error + string \<Rightarrow>
     (batch \<Rightarrow> js_error + unit) \<Rightarrow> push_run" where
  "pullPushByNote noteId localPath store pulled local_file batchUpdate =
     (if noteId = [] \<or> localPath = []
      then \<lparr>outcome = Exit 1, messages = [Usage], submitted = []\<rparr>
      else
        (case getBinding noteId store of
           Inl e \<Rightarrow> \<lparr>outcome = Uncaught e, messages = [], submitted = []\<rparr>
         | Inr binding \<Rightarrow>
             if \<not> truthy binding
             then \<lparr>outcome = Exit 2, messages = [NoBinding], submitted = []\<rparr>
             else
               (case js_get binding ''fileId'' of
                  Inl e \<Rightarrow> \<lparr>outcome = Uncaught e, messages = [], submitted = []\<rparr>
                | Inr docId \<Rightarrow>
                    (case js_get binding ''tabId'' of
                       Inl e \<Rightarrow> \<lparr>outcome = Uncaught e, messages = [], submitted = []\<rparr>
                     | Inr wanted \<Rightarrow>
                         pull_compare_push 3 4 docId wanted pulled local_file batchUpdate))))"

subsection \<open>The remote document service\<close>

text \<open>
  The remote document service is not part of the repository; the scripts only call it. Here
  it holds one document. How an accepted edit changes the document is a field of the
  service (\<open>apply_ops\<close>), so that what is proved about a rejected edit holds whatever
  an accepted one does; a call can also fail for a reason of its own (\<open>fault\<close>), such as
  the network.
\<close>

record service =
  doc_id :: string
  current :: document
  apply_ops :: "request list \<Rightarrow> document \<Rightarrow> document"
  fault :: "js_error option"

text \<open>
  Modelled from the spec: the update operation of the remote document service, which is
  missing from the sources. The spec gives its contract as
  \<open>applyEdits(docId, ops[], { requiredRevision? }) -> ok | revisionConflict\<close>: an edit
  whose required revision is not the document's current revision is rejected with a
  revision conflict and changes nothing.
\<close>

definition service_batchUpdate :: "service \<Rightarrow> batch \<Rightarrow> (js_error + unit) \<times> service" where
  "service_batchUpdate svc b =
     (case fault svc of
        Some e \<Rightarrow> (Inl e, svc)
      | None \<Rightarrow>
          if documentId b \<noteq> Some (JStr (doc_id svc)) then (Inl (ApiError ''notFound''), svc)
          else if requiredRevisionId b \<noteq> revisionId (current svc) then (Inl RevisionMismatch, svc)
          else (Inr (), svc\<lparr>current := apply_ops svc (requests b) (current svc)\<rparr>))"

text \<open>The answer of the service to an update, and the service after a run's updates.\<close>

definition answer :: "service \<Rightarrow> batch \<Rightarrow> js_error + unit" where
  "answer svc b = fst (service_batchUpdate svc b)"

definition service_after :: "service \<Rightarrow> batch list \<Rightarrow> service" where
  "service_after svc bs = foldl (\<lambda>s b. snd (service_batchUpdate s b)) svc bs"

text \<open>
  Modelled from the spec: what the two edit operations do to the text of a tab, which the
  sources do not contain either. The spec has the index space of the remote buffer start
  at 1, and has a push delete the full current content range, "content excluding the final
  implicit terminator", and then insert the local text. So index \<open>i\<close> is the place before
  character \<open>i - 1\<close> of the text: a deletion removes the characters from its start index up
  to its end index, the latter excluded, and an insertion puts its text at its index. A
  request is applied to the tab it names. The edited tab comes back with its text as one
  paragraph that ends at index 1 + length; the push scripts read no more of a tab than its
  text and the end index of its last element.
\<close>

fun request_tab :: "request \<Rightarrow> json option" where
  "request_tab (DeleteContentRange t s e) = t"
| "request_tab (InsertText t i new) = t"

fun apply_request :: "request \<Rightarrow> string \<Rightarrow> string" where
  "apply_request (DeleteContentRange t s e) txt = take (nat (s - 1)) txt @ drop (nat (e - 1)) txt"
| "apply_request (InsertText t i new) txt = take (nat (i - 1)) txt @ new @ drop (nat (i - 1)) txt"

definition apply_requests :: "request list \<Rightarrow> string \<Rightarrow> string" where
  "apply_requests reqs txt = foldl (\<lambda>acc r. apply_request r acc) txt reqs"

definition text_body :: "string \<Rightarrow> structural_element list" where
  "text_body txt =
     [\<lparr>el_paragraph =
         Some \<lparr>elements = [Some \<lparr>run_content = Some txt, run_bold = False, run_italic = False\<rparr>],
               namedStyleType = None\<rparr>,
       endIndex = Some (1 + int (length txt))\<rparr>]"

fun edit_tab :: "request list \<Rightarrow> tab \<Rightarrow> tab" where
  "edit_tab reqs (Tab i c ts) =
     Tab i
       (if filter (\<lambda>r. request_tab r = map_option JStr i) reqs = [] then c
        else Some (text_body (apply_requests (filter (\<lambda>r. request_tab r = map_option JStr i) reqs)
                                (getTabText (Tab i c ts)))))
       (map (edit_tab reqs) ts)"

text \<open>An accepted update also gives the document a new revision.\<close>

definition docs_apply :: "request list \<Rightarrow> document \<Rightarrow> document" where
  "docs_apply reqs doc =
     \<lparr>revisionId = revisionId doc @ ''+'', tabs = map (edit_tab reqs) (tabs doc)\<rparr>"

subsection \<open>A small store and a small remote side, for the scenarios\<close>

text \<open>
  One note \<open>n1\<close> bound to tab \<open>T\<close> of document \<open>F\<close>, whose only paragraph reads \<open>Hi\<close>. The
  change feed serves a page with one change to \<open>F\<close> and a continuation at the token
  \<open>P0\<close>, and an empty last page with the new start token \<open>C1\<close> at any other token.
\<close>

definition sample_tab :: tab where
  "sample_tab =
     Tab (Some ''T'')
       (Some [\<lparr>el_paragraph =
                  Some \<lparr>elements = [Some \<lparr>run_content = Some (''Hi'' @ [LF]),
                                           run_bold = False, run_italic = False\<rparr>],
                        namedStyleType = None\<rparr>,
                endIndex = Some 4\<rparr>])
       []"

definition sample_doc :: document where
  "sample_doc = \<lparr>revisionId = ''R1'', tabs = [sample_tab]\<rparr>"

definition sample_feed :: "json \<Rightarrow> js_error + change_page" where
  "sample_feed t =
     (if t = JStr ''P0''
      then Inr \<lparr>changes = [\<lparr>fileId = Some ''F'', removed = False\<rparr>],
                nextPageToken = Some (JStr ''P1''), newStartPageToken = None\<rparr>
      else Inr \<lparr>changes = [], nextPageToken = None, newStartPageToken = Some (JStr ''C1'')\<rparr>)"

definition sample_get :: "string option \<Rightarrow> js_error + document" where
  "sample_get fid = Inr sample_doc"

definition sample_time :: "nat \<Rightarrow> string" where
  "sample_time n = ''2025-01-01T00:00:00.000Z''"

definition sample_remote :: remote where
  "sample_remote =
     \<lparr>getStartPageToken = Inr (Some (JStr ''C0'')), changes_list = sample_feed,
      documents_get = sample_get, toISOString = sample_time\<rparr>"

definition sample_notes :: "(string \<times> json) list" where
  "sample_notes = [(''n1'', JObj [(''fileId'', JStr ''F''), (''tabId'', JStr ''T'')])]"

definition sample_store :: store_file where
  "sample_store = Json (JObj [(''notes'', JObj sample_notes), (''notebooks'', JObj [])])"

definition no_shadow :: "string \<Rightarrow> string option" where
  "no_shadow noteId = None"

definition sample_world :: "store_file \<Rightarrow> world" where
  "sample_world st =
     \<lparr>state_file = st, mapping_file = sample_store, shadow = no_shadow, clock = 0, trace = []\<rparr>"

text \<open>Two things a \<open>batchUpdate\<close> call can throw: a revision conflict, and a lost connection.\<close>

definition conflict_thrown :: "batch \<Rightarrow> js_error + unit" where
  "conflict_thrown b = Inl RevisionMismatch"

definition connection_lost :: "batch \<Rightarrow> js_error + unit" where
  "connection_lost b = Inl (ApiError ''ECONNRESET'')"

text \<open>
  The remote service holding the sample document at revision \<open>R1\<close>; the same service after
  somebody else's edit has moved it to revision \<open>R2\<close>; and the same service with a broken
  connection.
\<close>

definition sample_service :: service where
  "sample_service =
     \<lparr>doc_id = ''F'', current = sample_doc, apply_ops = docs_apply, fault = None\<rparr>"

definition edited_service :: service where
  "edited_service = sample_service\<lparr>current := sample_doc\<lparr>revisionId := ''R2''\<rparr>\<rparr>"

definition broken_service :: service where
  "broken_service = sample_service\<lparr>fault := Some (ApiError ''ECONNRESET'')\<rparr>"


text \<open>
  The store after a pull of \<open>n1\<close> at revision \<open>R1\<close>, and a remote side whose clock moves
  on from one reading to the next.
\<close>

definition synced_store :: store_file where
  "synced_store =
     Json (JObj [(''notes'',
                  JObj [(''n1'', JObj [(''fileId'', JStr ''F''), (''tabId'', JStr ''T''),
                                      (''lastKnownRevisionId'', JStr ''R1''),
                                      (''lastSyncTs'', JStr ''2025-01-01T00:00:00.000Z'')])]),
                 (''notebooks'', JObj [])])"






section \<open>Properties of the Markdown projection\<close>

lemma foldl_invariant:
  assumes "I s" and "\<And>t x. I t \<Longrightarrow> I (f t x)"
  shows "I (foldl f s xs)"
  using assms(1) by (induction xs arbitrary: s) (simp_all add: assms(2))

text \<open>
  The loop keeps \<open>cursor\<close> at the length of the buffer, adds to the buffer the length of each
  emitted line plus one, and records every paragraph range inside the buffer.
\<close>

definition md_inv :: "md_state \<Rightarrow> bool" where
  "md_inv st \<longleftrightarrow>
     cursor st = int (length (plain st)) \<and>
     int (length (plain st)) = (\<Sum>r \<leftarrow> paraRanges st. p_end r - p_start r + 1) \<and>
     (\<forall>r \<in> set (paraRanges st). 0 \<le> p_start r \<and> p_start r \<le> p_end r \<and>
        p_end r \<le> int (length (plain st)))"

lemma md_line_fence:
  assumes "fenceMatch original = Some tag"
  shows "plain (md_line mapping st original) = plain st"
    and "paraRanges (md_line mapping st original) = paraRanges st"
    and "textRanges (md_line mapping st original) = textRanges st"
    and "cursor (md_line mapping st original) = cursor st"
    and "inFence (md_line mapping st original) = (\<not> inFence st)"
  using assms by (simp_all add: md_line_def)

lemma md_line_emit:
  assumes "fenceMatch original = None"
  shows "\<exists>line style.
           plain (md_line mapping st original) = plain st @ line @ [LF] \<and>
           paraRanges (md_line mapping st original) = paraRanges st @
             [\<lparr>p_start = cursor st, p_end = cursor st + int (length line), p_style = style\<rparr>] \<and>
           cursor (md_line mapping st original) = cursor st + int (length line) + 1 \<and>
           inFence (md_line mapping st original) = inFence st"
  using assms by (simp add: md_line_def Let_def split: prod.splits)

lemma md_line_inv:
  assumes "md_inv st"
  shows "md_inv (md_line mapping st original)"
proof (cases "fenceMatch original")
  case (Some tag)
  from md_line_fence [OF this, of mapping st] assms show ?thesis
    unfolding md_inv_def by metis
next
  case None
  from md_line_emit [OF this, of mapping st] obtain line style where
    p: "plain (md_line mapping st original) = plain st @ line @ [LF]" and
    r: "paraRanges (md_line mapping st original) = paraRanges st @
          [\<lparr>p_start = cursor st, p_end = cursor st + int (length line), p_style = style\<rparr>]" and
    c: "cursor (md_line mapping st original) = cursor st + int (length line) + 1"
    by blast
  from assms have c0: "cursor st = int (length (plain st))"
    and s0: "int (length (plain st)) = (\<Sum>r \<leftarrow> paraRanges st. p_end r - p_start r + 1)"
    and b0: "\<forall>r \<in> set (paraRanges st). 0 \<le> p_start r \<and> p_start r \<le> p_end r \<and>
               p_end r \<le> int (length (plain st))"
    unfolding md_inv_def by blast+
  have 1: "cursor (md_line mapping st original) = int (length (plain (md_line mapping st original)))"
    by (simp add: p c c0)
  have 2: "int (length (plain (md_line mapping st original))) =
             (\<Sum>r \<leftarrow> paraRanges (md_line mapping st original). p_end r - p_start r + 1)"
    by (simp add: p r s0 [symmetric])
  have 3: "\<forall>r \<in> set (paraRanges (md_line mapping st original)).
             0 \<le> p_start r \<and> p_start r \<le> p_end r \<and>
             p_end r \<le> int (length (plain (md_line mapping st original)))"
    unfolding p r using b0 c0 by auto
  from 1 2 3 show ?thesis unfolding md_inv_def by blast
qed

lemma md_init_inv: "md_inv md_init"
  by (simp add: md_inv_def md_init_def)

lemma md_build_inv: "md_inv (md_build mapping md)"
  unfolding md_build_def
  by (rule foldl_invariant [where I = md_inv]) (simp_all add: md_init_inv md_line_inv)

lemma md_build_buffer_length:
  "int (length (plain (md_build mapping md))) =
     (\<Sum>r \<leftarrow> paraRanges (md_build mapping md). p_end r - p_start r + 1)"
  using md_build_inv [of mapping md] unfolding md_inv_def by blast

lemma md_build_para_ranges_in_buffer:
  "\<forall>r \<in> set (paraRanges (md_build mapping md)).
     0 \<le> p_start r \<and> p_start r \<le> p_end r \<and> p_end r \<le> int (length (plain (md_build mapping md)))"
  using md_build_inv [of mapping md] unfolding md_inv_def by blast

text \<open>
  Inside a fence, a line that holds neither \<open>*\<close> nor \<open>_\<close> does go out as it is, as a
  \<open>CODEBLOCK\<close> paragraph with no text range.
\<close>

lemma match_here_needs_marker:
  "marker_char m \<notin> set s \<Longrightarrow> match_here m s = None"
proof (cases s)
  case Nil
  then show ?thesis using marker_len_pos [of m] by (simp add: match_here_def Let_def)
next
  case (Cons x xs)
  assume a: "marker_char m \<notin> set s"
  obtain k where k: "marker_len m = Suc k" using marker_len_pos [of m] by (cases "marker_len m") auto
  from a Cons have "take (marker_len m) s \<noteq> replicate (marker_len m) (marker_char m)"
    by (auto simp: k)
  then show ?thesis by (simp add: match_here_def Let_def)
qed

lemma search_from_needs_marker:
  "marker_char m \<notin> set s \<Longrightarrow> search_from m s p = None"
  by (induction s arbitrary: p) (simp_all add: match_here_needs_marker)

lemma applyInline_no_marker:
  "marker_char m \<notin> set line \<Longrightarrow> applyInline m cur line = (line, [])"
  by (simp add: applyInline_def re_exec_def search_from_needs_marker)

lemma md_line_in_fence_verbatim:
  assumes "inFence st" and "fenceMatch original = None"
    and "CHR ''*'' \<notin> set original" and "CHR ''_'' \<notin> set original"
  shows "md_line mapping st original =
           st\<lparr>plain := plain st @ original @ [LF],
              paraRanges := paraRanges st @
                [\<lparr>p_start = cursor st, p_end = cursor st + int (length original),
                  p_style = ''CODEBLOCK''\<rparr>],
              textRanges := textRanges st,
              cursor := cursor st + int (length original) + 1\<rparr>"
  using assms by (simp add: md_line_def applyInline_no_marker Let_def)

text \<open>
  Claim C3. Inside a fenced code block every line is emitted verbatim, with no inline
  bold or italic scanning; one unmatched fence line followed by two lines of text gives
  both lines verbatim and no inline styling.

  The code does this only for lines without inline markers (\<open>md_line_in_fence_verbatim\<close>;
  the fence line itself is consumed, \<open>md_line_fence\<close>). On the input of a fence line
  followed by the lines
  \<open>**b**\<close> and \<open>*x*\<close>, the fence line is consumed and both lines are styled as code, but
  the inline calls run on them all the same: the markers are removed from the text, and
  a bold and an italic range are recorded.
\<close>

theorem C3_fence_lines_are_scanned:
  "mdToDocs fallback_mapping (''```'' @ [LF] @ ''**b**'' @ [LF] @ ''*x*'') =
     (''b'' @ [LF] @ ''x'' @ [LF],
      [\<lparr>p_start = 0, p_end = 1, p_style = ''CODEBLOCK''\<rparr>,
       \<lparr>p_start = 2, p_end = 3, p_style = ''CODEBLOCK''\<rparr>],
      [\<lparr>t_start = 0, t_end = 1, bold = True, italic = False\<rparr>,
       \<lparr>t_start = 2, t_end = 3, bold = False, italic = True\<rparr>])"
  by code_simp

text \<open>
  Claim C4, as stated: the input \<open># T\<close>, blank line, \<open>A **b** c\<close> with Title promotion
  gives the buffer \<open>T\nA b c\n\<close>, the paragraph ranges \<open>{0,1,TITLE}\<close> and \<open>{2,7,NORMAL}\<close>
  and the bold range \<open>{4,5}\<close>. The script does not produce this.
\<close>

theorem C4_counterexample:
  "mdToDocs (fallback_mapping\<lparr>useTitle := True\<rparr>) (''# T'' @ [LF, LF] @ ''A **b** c'') \<noteq>
     (''T'' @ [LF] @ ''A b c'' @ [LF],
      [\<lparr>p_start = 0, p_end = 1, p_style = ''TITLE''\<rparr>,
       \<lparr>p_start = 2, p_end = 7, p_style = ''NORMAL_TEXT''\<rparr>],
      [\<lparr>t_start = 4, t_end = 5, bold = True, italic = False\<rparr>])"
  by code_simp

text \<open>
  Claim C4, amended. The blank line of the input is a line like any other: it is emitted as
  an empty paragraph with its own terminator. With Title promotion the script gives the
  buffer \<open>T\n\nA b c\n\<close>, the paragraph ranges \<open>{0,1,TITLE}\<close>, \<open>{2,2,NORMAL_TEXT}\<close> and
  \<open>{3,8,NORMAL_TEXT}\<close>, and the bold range \<open>{5,6}\<close>.
\<close>

theorem C4_parse_scenario:
  "mdToDocs (fallback_mapping\<lparr>useTitle := True\<rparr>) (''# T'' @ [LF, LF] @ ''A **b** c'') =
     (''T'' @ [LF, LF] @ ''A b c'' @ [LF],
      [\<lparr>p_start = 0, p_end = 1, p_style = ''TITLE''\<rparr>,
       \<lparr>p_start = 2, p_end = 2, p_style = ''NORMAL_TEXT''\<rparr>,
       \<lparr>p_start = 3, p_end = 8, p_style = ''NORMAL_TEXT''\<rparr>],
      [\<lparr>t_start = 5, t_end = 6, bold = True, italic = False\<rparr>])"
  by code_simp

text \<open>
  Claim C7. The buffer's length is the sum over the blocks of the rendered length plus one,
  and every paragraph and text range satisfies \<open>0 \<le> start \<le> end \<le> length\<close>.

  The length equation and the bounds of the paragraph ranges hold (\<open>md_build_buffer_length\<close>,
  \<open>md_build_para_ranges_in_buffer\<close>). The text ranges break the bound: for the second match
  in a line the source subtracts \<open>offset\<close> from an index that is already an index into
  the rewritten line. On the one-line input \<open>**a** **b**\<close> the second bold range starts at
  \<open>-2\<close>.
\<close>

theorem C7_text_range_out_of_buffer:
  "mdToDocs fallback_mapping ''**a** **b**'' =
     (''a b'' @ [LF],
      [\<lparr>p_start = 0, p_end = 3, p_style = ''NORMAL_TEXT''\<rparr>],
      [\<lparr>t_start = 0, t_end = 1, bold = True, italic = False\<rparr>,
       \<lparr>t_start = - 2, t_end = - 1, bold = True, italic = False\<rparr>])"
  by code_simp

section \<open>Properties of the binding store\<close>

lemma map_of_replace_value:
  "map_of kvs k \<noteq> None \<Longrightarrow> map_of (replace_value k v kvs) = (map_of kvs)(k \<mapsto> v)"
  by (induction kvs) (auto simp: fun_eq_iff)

lemma map_of_insert_new:
  "map_of kvs k = None \<Longrightarrow> map_of (insert_new k v kvs) = (map_of kvs)(k \<mapsto> v)"
  by (induction kvs) (auto simp: fun_eq_iff split: if_splits)

lemma map_of_obj_put: "map_of (obj_put k v kvs) = (map_of kvs)(k \<mapsto> v)"
  by (simp add: obj_put_def map_of_replace_value map_of_insert_new)

lemma map_of_put_all: "map_of (put_all acc kvs) = map_of acc ++ map_of (rev kvs)"
proof (induction kvs arbitrary: acc)
  case Nil
  then show ?case by (simp add: put_all_def)
next
  case (Cons p kvs)
  obtain k v where p: "p = (k, v)" by (cases p)
  have "put_all acc (p # kvs) = put_all (obj_put k v acc) kvs"
    by (simp add: put_all_def p)
  also have "map_of \<dots> = map_of (obj_put k v acc) ++ map_of (rev kvs)"
    by (rule Cons.IH)
  finally have "map_of (put_all acc (p # kvs)) = (map_of acc)(k \<mapsto> v) ++ map_of (rev kvs)"
    by (simp only: map_of_obj_put)
  also have "\<dots> = map_of acc ++ map_of (rev (p # kvs))"
    by (simp add: p map_of_append fun_eq_iff map_add_def split: option.splits)
  finally show ?case .
qed

lemma map_of_spread: "map_of (spread a b) = record_map a ++ map_of (rev b)"
  by (cases a) (simp_all add: spread_def map_of_put_all record_map_def)

text \<open>The names the scripts read as fixed fields are not inherited ones.\<close>

lemma inherited_fixed [simp]:
  "inherited ''notes'' = None" "inherited ''notebooks'' = None" "inherited ''fileId'' = None"
  "inherited ''tabId'' = None" "inherited ''pageToken'' = None"
  by (simp_all add: inherited_def object_prototype_names_def)

lemma inherited_other: "k \<notin> set object_prototype_names \<Longrightarrow> inherited k = None"
  by (simp add: inherited_def)

lemma own_or_inherited [simp]:
  "inherited k = None \<Longrightarrow> (case x of None \<Rightarrow> inherited k | Some v \<Rightarrow> Some v) = x"
  by (cases x) simp_all

lemma truthy_opt_Some: "truthy_opt x \<Longrightarrow> \<exists>v. x = Some v \<and> truthy v \<and> v \<noteq> JNull"
  by (cases x) auto

lemma array_index_notes: "array_index ''notes'' = None" "array_index ''notebooks'' = None"
  by (simp_all add: array_index_def is_digit_def)

lemma loadMapping_obj_cases:
  "loadMapping (Json (JObj kvs)) =
     (if \<not> truthy_opt (map_of kvs ''notes'') \<and> \<not> truthy_opt (map_of kvs ''notebooks'')
      then JObj [(''notes'', JObj kvs), (''notebooks'', JObj [])]
      else if \<not> truthy_opt (map_of kvs ''notes'') then JObj (obj_put ''notes'' (JObj []) kvs)
      else if \<not> truthy_opt (map_of kvs ''notebooks'') then JObj (obj_put ''notebooks'' (JObj []) kvs)
      else JObj kvs)"
  by (simp add: loadMapping_def loadMapping_try_def)

lemma loadMapping_shape:
  "\<exists>kvs n b. loadMapping f = JObj kvs \<and> map_of kvs ''notes'' = Some n \<and> n \<noteq> JNull \<and>
      map_of kvs ''notebooks'' = Some b \<and> truthy b"
proof (cases f)
  case (Json data)
  show ?thesis
  proof (cases data)
    case (JObj kvs)
    consider (flat) "\<not> truthy_opt (map_of kvs ''notes'')" "\<not> truthy_opt (map_of kvs ''notebooks'')"
      | (no_notes) "\<not> truthy_opt (map_of kvs ''notes'')" "truthy_opt (map_of kvs ''notebooks'')"
      | (no_books) "truthy_opt (map_of kvs ''notes'')" "\<not> truthy_opt (map_of kvs ''notebooks'')"
      | (both) "truthy_opt (map_of kvs ''notes'')" "truthy_opt (map_of kvs ''notebooks'')"
      by blast
    then show ?thesis
    proof cases
      case flat
      then show ?thesis by (simp add: Json JObj loadMapping_obj_cases)
    next
      case no_notes
      from truthy_opt_Some [OF no_notes(2)] no_notes(1) show ?thesis
        by (auto simp: Json JObj loadMapping_obj_cases map_of_obj_put)
    next
      case no_books
      from truthy_opt_Some [OF no_books(1)] no_books(2) show ?thesis
        by (auto simp: Json JObj loadMapping_obj_cases map_of_obj_put)
    next
      case both
      from truthy_opt_Some [OF both(1)] truthy_opt_Some [OF both(2)] both show ?thesis
        by (auto simp: Json JObj loadMapping_obj_cases)
    qed
  qed (auto simp: Json loadMapping_def loadMapping_try_def empty_mapping_def array_index_notes)
qed (auto simp: loadMapping_def loadMapping_try_def empty_mapping_def)

lemma notes_of_loaded:
  assumes "notes_of (loadMapping f) = Inr (JObj notes)"
  obtains kvs b where "loadMapping f = JObj kvs" "map_of kvs ''notes'' = Some (JObj notes)"
    "map_of kvs ''notebooks'' = Some b" "truthy b"
proof -
  from loadMapping_shape [of f] obtain kvs n b where
    l: "loadMapping f = JObj kvs" and n: "map_of kvs ''notes'' = Some n" "n \<noteq> JNull"
    and b: "map_of kvs ''notebooks'' = Some b" "truthy b" by blast
  from assms l n have "n = JObj notes"
    by (cases n) (simp_all add: notes_of_def)
  with l n b that show thesis by blast
qed

lemma reload_with_notes:
  assumes "notes_of (loadMapping f) = Inr (JObj notes)"
  shows "loadMapping (Json (with_notes (loadMapping f) (JObj notes'))) =
           with_notes (loadMapping f) (JObj notes')"
    and "notes_of (with_notes (loadMapping f) (JObj notes')) = Inr (JObj notes')"
proof -
  from assms obtain kvs b where l: "loadMapping f = JObj kvs"
    and b: "map_of kvs ''notebooks'' = Some b" "truthy b"
    by (rule notes_of_loaded)
  show "loadMapping (Json (with_notes (loadMapping f) (JObj notes'))) =
           with_notes (loadMapping f) (JObj notes')"
    by (simp add: l with_notes_def loadMapping_obj_cases map_of_obj_put b)
  show "notes_of (with_notes (loadMapping f) (JObj notes')) = Inr (JObj notes')"
    by (simp add: l with_notes_def notes_of_def map_of_obj_put)
qed

text \<open>
  Indexing the notes table with a key of its own, or with a name that is not inherited,
  reads and defines an own property.
\<close>

lemma js_get_key:
  assumes "map_of kvs k \<noteq> None \<or> k \<notin> set object_prototype_names"
  shows "js_get (JObj kvs) k = Inr (map_of kvs k)"
  using assms by (auto simp: inherited_def split: option.splits)

lemma assign_record_key:
  assumes "map_of kvs k \<noteq> None \<or> k \<notin> set object_prototype_names"
  shows "assign_record (JObj kvs) k r = Inr (JObj (obj_put k (JObj r) kvs))"
  using assms by (auto simp: object_prototype_names_def)

lemma getBinding_lookup:
  assumes "notes_of (loadMapping f) = Inr (JObj notes)"
    and "map_of notes noteId \<noteq> None \<or> noteId \<notin> set object_prototype_names"
  shows "getBinding noteId f =
           Inr (case map_of notes noteId of None \<Rightarrow> JNull
                | Some v \<Rightarrow> if truthy v then v else JNull)"
  using assms(1) js_get_key [OF assms(2)]
  by (simp add: getBinding_def split: option.splits)

lemma bindNote_result:
  assumes "notes_of (loadMapping f) = Inr (JObj notes)"
    and "map_of notes noteId \<noteq> None \<or> noteId \<notin> set object_prototype_names"
  shows "bindNote noteId flds f =
           Inr (JObj (spread (map_of notes noteId) flds),
                Some (with_notes (loadMapping f)
                  (JObj (obj_put noteId (JObj (spread (map_of notes noteId) flds)) notes))))"
  using assms(1) js_get_key [OF assms(2)] assign_record_key [OF assms(2)]
  by (simp add: bindNote_def Let_def)

lemma updateSyncCheckpoint_absent:
  assumes "notes_of (loadMapping f) = Inr (JObj notes)"
    and "map_of notes noteId \<noteq> None \<or> noteId \<notin> set object_prototype_names"
    and "\<not> truthy_opt (map_of notes noteId)"
  shows "updateSyncCheckpoint noteId flds f = Inr (JNull, None)"
  using assms(1,3) js_get_key [OF assms(2)]
  by (simp add: updateSyncCheckpoint_def Let_def)

lemma updateSyncCheckpoint_present:
  assumes "notes_of (loadMapping f) = Inr (JObj notes)" "truthy_opt (map_of notes noteId)"
  shows "updateSyncCheckpoint noteId flds f =
           Inr (JObj (spread (map_of notes noteId) flds),
                Some (with_notes (loadMapping f)
                  (JObj (obj_put noteId (JObj (spread (map_of notes noteId) flds)) notes))))"
proof -
  from assms(2) have k: "map_of notes noteId \<noteq> None \<or> noteId \<notin> set object_prototype_names"
    by (cases "map_of notes noteId") simp_all
  from assms js_get_key [OF k] assign_record_key [OF k] show ?thesis
    by (simp add: updateSyncCheckpoint_def Let_def)
qed

lemma markAccessLost_absent:
  assumes "notes_of (loadMapping f) = Inr (JObj notes)"
    and "map_of notes noteId \<noteq> None \<or> noteId \<notin> set object_prototype_names"
    and "\<not> truthy_opt (map_of notes noteId)"
  shows "markAccessLost noteId f = Inr (JNull, None)"
  using assms(1,3) js_get_key [OF assms(2)]
  by (simp add: markAccessLost_def Let_def)

lemma markAccessLost_present:
  assumes "notes_of (loadMapping f) = Inr (JObj notes)" "map_of notes noteId = Some (JObj old)"
  shows "markAccessLost noteId f =
           Inr (JObj (obj_put ''accessLost'' (JBool True) old),
                Some (with_notes (loadMapping f)
                  (JObj (obj_put noteId (JObj (obj_put ''accessLost'' (JBool True) old)) notes))))"
proof -
  from assms(2) have k: "map_of notes noteId \<noteq> None \<or> noteId \<notin> set object_prototype_names"
    by simp
  from assms js_get_key [OF k] assign_record_key [OF k] show ?thesis
    by (simp add: markAccessLost_def Let_def)
qed

lemma is_obj_truthy: "is_obj v \<Longrightarrow> truthy v"
  by (cases v) auto

lemma loadMapping_flat_free:
  assumes "map_of kvs ''notes'' = None" "map_of kvs ''notebooks'' = None"
  shows "loadMapping (Json (JObj kvs)) = JObj [(''notes'', JObj kvs), (''notebooks'', JObj [])]"
  using assms by (simp add: loadMapping_obj_cases)

lemma loadMapping_namespaced:
  assumes "namespaced_map kvs"
  shows "loadMapping (Json (JObj kvs)) = JObj (fill ''notebooks'' (fill ''notes'' kvs))"
proof -
  from assms have 
    n: "map_of kvs ''notes'' = None \<or> (\<exists>v. map_of kvs ''notes'' = Some v \<and> is_obj v)" and
    b: "map_of kvs ''notebooks'' = None \<or> (\<exists>v. map_of kvs ''notebooks'' = Some v \<and> is_obj v)" and
    e: "map_of kvs ''notes'' \<noteq> None \<or> map_of kvs ''notebooks'' \<noteq> None"
    by (auto simp: namespaced_map_def split: option.splits)
  from n b e show ?thesis
    by (auto simp: loadMapping_obj_cases fill_def map_of_obj_put dest: is_obj_truthy)
qed

lemma has_both_maps_namespaced:
  assumes "namespaced_map kvs"
  shows "has_both_maps (JObj (fill ''notebooks'' (fill ''notes'' kvs)))"
proof -
  from assms have 
    n: "map_of kvs ''notes'' = None \<or> (\<exists>v. map_of kvs ''notes'' = Some (JObj v))" and
    b: "map_of kvs ''notebooks'' = None \<or> (\<exists>v. map_of kvs ''notebooks'' = Some (JObj v))"
    by (auto simp: namespaced_map_def split: option.splits elim: is_obj.elims)
  from n b show ?thesis
    by (auto simp: has_both_maps_def fill_def map_of_obj_put)
qed

text \<open>The earlier, flat store does the same on a file that holds an object.\<close>

lemma flat_store_operations:
  assumes "flat_loadMapping f = JObj notes"
    and "map_of notes noteId \<noteq> None \<or> noteId \<notin> set object_prototype_names"
  shows "flat_bindNote noteId flds f =
           Inr (JObj (spread (map_of notes noteId) flds),
                Some (JObj (obj_put noteId (JObj (spread (map_of notes noteId) flds)) notes)))"
    and "flat_getBinding noteId f =
           Inr (case map_of notes noteId of None \<Rightarrow> JNull
                | Some v \<Rightarrow> if truthy v then v else JNull)"
    and "\<not> truthy_opt (map_of notes noteId) \<Longrightarrow>
           flat_updateSyncCheckpoint noteId flds f = Inr (JNull, None)"
    and "truthy_opt (map_of notes noteId) \<Longrightarrow>
           flat_updateSyncCheckpoint noteId flds f =
             Inr (JObj (spread (map_of notes noteId) flds),
                  Some (JObj (obj_put noteId (JObj (spread (map_of notes noteId) flds)) notes)))"
    and "\<not> truthy_opt (map_of notes noteId) \<Longrightarrow> flat_markAccessLost noteId f = Inr (JNull, None)"
    and "map_of notes noteId = Some (JObj old) \<Longrightarrow>
           flat_markAccessLost noteId f =
             Inr (JObj (obj_put ''accessLost'' (JBool True) old),
                  Some (JObj (obj_put noteId (JObj (obj_put ''accessLost'' (JBool True) old)) notes)))"
  using assms(1) js_get_key [OF assms(2)] assign_record_key [OF assms(2)]
  by (simp_all add: flat_bindNote_def flat_getBinding_def flat_updateSyncCheckpoint_def
      flat_markAccessLost_def Let_def split: option.splits)

text \<open>
  Claim C9, as stated, speaks of every store state and every note id. The operations index
  the notes table with the note id, and indexing follows the prototype chain. On a store
  with no file, the note id \<open>constructor\<close> has no record, yet \<open>getBinding\<close> returns the
  inherited constructor instead of \<open>null\<close>, \<open>updateSyncCheckpoint\<close> creates a record and
  writes the store, and \<open>markAccessLost\<close> writes the store too. \<open>bindNote\<close> with the note
  id \<open>__proto__\<close> returns the merged record but the store it writes has none. On a store
  file that holds the number 5 the notes table is that number and \<open>bindNote\<close> throws; on
  a record that is a string \<open>markAccessLost\<close> throws.
\<close>

theorem C9_counterexample:
  "getBinding ''constructor'' Absent = Inr (JBuiltin ''constructor'') \<and>
   updateSyncCheckpoint ''constructor'' [(''lastSyncTs'', JStr ''t'')] Absent =
     Inr (JObj [(''lastSyncTs'', JStr ''t'')],
          Some (JObj [(''notes'', JObj [(''constructor'', JObj [(''lastSyncTs'', JStr ''t'')])]),
                      (''notebooks'', JObj [])])) \<and>
   markAccessLost ''constructor'' Absent =
     Inr (JBuiltin ''constructor'', Some (JObj [(''notes'', JObj []), (''notebooks'', JObj [])])) \<and>
   bindNote ''__proto__'' [(''fileId'', JStr ''F'')] Absent =
     Inr (JObj [(''fileId'', JStr ''F'')],
          Some (JObj [(''notes'', JObj []), (''notebooks'', JObj [])])) \<and>
   getBinding ''__proto__'' (Json (JObj [(''notes'', JObj []), (''notebooks'', JObj [])])) =
     Inr (JBuiltin ''__proto__'') \<and>
   bindNote ''n1'' [(''fileId'', JStr ''F'')] (Json (JNum 5)) = Inl TypeError \<and>
   markAccessLost ''n1'' (Json (JObj [(''notes'', JObj [(''n1'', JStr ''x'')])])) = Inl TypeError"
  by code_simp

text \<open>
  Claim C9, amended. For every store state whose notes table is an object, and every note
  id that is a key of that table or is not a property name inherited from
  \<open>Object.prototype\<close> (such as \<open>constructor\<close> or \<open>__proto__\<close>): \<open>bindNote\<close> merges the
  fields into the existing record or creates one; \<open>getBinding\<close> returns the record or
  \<open>null\<close>; \<open>updateSyncCheckpoint\<close> merges into the existing record, and returns \<open>null\<close>
  without writing the store when the record is absent; \<open>markAccessLost\<close> sets
  \<open>accessLost\<close> to \<open>true\<close> on a record that is an object, and likewise does nothing when
  the record is absent.

  The notes table is an object for a file that is absent, unreadable or not JSON, for a
  flat map and for a namespaced map with an object as its \<open>notes\<close>; every file the
  operations write is such a store again (\<open>loadMapping (Json w) = w\<close> and \<open>notes_of w\<close>
  below). A merge lets the later field win, and an absent record is one that is not there
  or is falsy.
\<close>

theorem C9_store_operations:
  assumes "notes_of (loadMapping f) = Inr (JObj notes)"
    and "map_of notes noteId \<noteq> None \<or> noteId \<notin> set object_prototype_names"
  shows
    "(\<exists>r w. bindNote noteId flds f = Inr (JObj r, Some w) \<and>
        map_of r = record_map (map_of notes noteId) ++ map_of (rev flds) \<and>
        loadMapping (Json w) = w \<and>
        notes_of w = Inr (JObj (obj_put noteId (JObj r) notes))) \<and>
     getBinding noteId f =
        Inr (case map_of notes noteId of None \<Rightarrow> JNull
             | Some v \<Rightarrow> if truthy v then v else JNull) \<and>
     (\<not> truthy_opt (map_of notes noteId) \<longrightarrow>
        updateSyncCheckpoint noteId flds f = Inr (JNull, None)) \<and>
     (truthy_opt (map_of notes noteId) \<longrightarrow>
        (\<exists>r w. updateSyncCheckpoint noteId flds f = Inr (JObj r, Some w) \<and>
           map_of r = record_map (map_of notes noteId) ++ map_of (rev flds) \<and>
           loadMapping (Json w) = w \<and>
           notes_of w = Inr (JObj (obj_put noteId (JObj r) notes)))) \<and>
     (\<not> truthy_opt (map_of notes noteId) \<longrightarrow> markAccessLost noteId f = Inr (JNull, None)) \<and>
     (\<forall>old. map_of notes noteId = Some (JObj old) \<longrightarrow>
        (\<exists>r w. markAccessLost noteId f = Inr (JObj r, Some w) \<and>
           map_of r = (map_of old)(''accessLost'' \<mapsto> JBool True) \<and>
           loadMapping (Json w) = w \<and>
           notes_of w = Inr (JObj (obj_put noteId (JObj r) notes))))"
proof (intro conjI impI allI)
  note h = assms(1) and k = assms(2)
  let ?r = "spread (map_of notes noteId) flds"
  let ?w = "with_notes (loadMapping f) (JObj (obj_put noteId (JObj ?r) notes))"
  show "\<exists>r w. bindNote noteId flds f = Inr (JObj r, Some w) \<and>
        map_of r = record_map (map_of notes noteId) ++ map_of (rev flds) \<and>
        loadMapping (Json w) = w \<and>
        notes_of w = Inr (JObj (obj_put noteId (JObj r) notes))"
    using bindNote_result [OF h k, of flds] reload_with_notes [OF h]
      map_of_spread [of "map_of notes noteId" flds]
    by blast
  show "getBinding noteId f =
        Inr (case map_of notes noteId of None \<Rightarrow> JNull
             | Some v \<Rightarrow> if truthy v then v else JNull)"
    by (rule getBinding_lookup [OF h k])
  show "updateSyncCheckpoint noteId flds f = Inr (JNull, None)"
    if "\<not> truthy_opt (map_of notes noteId)"
    by (rule updateSyncCheckpoint_absent [OF h k that])
  show "\<exists>r w. updateSyncCheckpoint noteId flds f = Inr (JObj r, Some w) \<and>
           map_of r = record_map (map_of notes noteId) ++ map_of (rev flds) \<and>
           loadMapping (Json w) = w \<and>
           notes_of w = Inr (JObj (obj_put noteId (JObj r) notes))"
    if "truthy_opt (map_of notes noteId)"
    using updateSyncCheckpoint_present [OF h that, of flds] reload_with_notes [OF h]
      map_of_spread [of "map_of notes noteId" flds]
    by blast
  show "markAccessLost noteId f = Inr (JNull, None)"
    if "\<not> truthy_opt (map_of notes noteId)"
    by (rule markAccessLost_absent [OF h k that])
  show "\<exists>r w. markAccessLost noteId f = Inr (JObj r, Some w) \<and>
           map_of r = (map_of old)(''accessLost'' \<mapsto> JBool True) \<and>
           loadMapping (Json w) = w \<and>
           notes_of w = Inr (JObj (obj_put noteId (JObj r) notes))"
    if "map_of notes noteId = Some (JObj old)" for old
    using markAccessLost_present [OF h that] reload_with_notes [OF h]
      map_of_obj_put [of "''accessLost''" "JBool True" old]
    by blast
qed

theorem C9_store_operations_witness:
  "notes_of (loadMapping (Json (JObj [(''notes'', JObj [(''n1'', JObj [(''fileId'', JStr ''F'')])])]))) =
     Inr (JObj [(''n1'', JObj [(''fileId'', JStr ''F'')])]) \<and>
   ''n2'' \<notin> set object_prototype_names \<and>
   getBinding ''n1'' (Json (JObj [(''notes'', JObj [(''n1'', JObj [(''fileId'', JStr ''F'')])])])) =
     Inr (JObj [(''fileId'', JStr ''F'')]) \<and>
   getBinding ''n2'' (Json (JObj [(''notes'', JObj [(''n1'', JObj [(''fileId'', JStr ''F'')])])])) =
     Inr JNull \<and>
   updateSyncCheckpoint ''n2'' [(''lastSyncTs'', JStr ''t'')]
     (Json (JObj [(''notes'', JObj [(''n1'', JObj [(''fileId'', JStr ''F'')])])])) = Inr (JNull, None) \<and>
   markAccessLost ''n2''
     (Json (JObj [(''notes'', JObj [(''n1'', JObj [(''fileId'', JStr ''F'')])])])) = Inr (JNull, None) \<and>
   (\<exists>r w. markAccessLost ''n1''
       (Json (JObj [(''notes'', JObj [(''n1'', JObj [(''fileId'', JStr ''F'')])])])) = Inr (JObj r, Some w) \<and>
     map_of r ''accessLost'' = Some (JBool True) \<and> map_of r ''fileId'' = Some (JStr ''F'')) \<and>
   (\<exists>r w. updateSyncCheckpoint ''n1'' [(''lastSyncTs'', JStr ''t'')]
       (Json (JObj [(''notes'', JObj [(''n1'', JObj [(''fileId'', JStr ''F'')])])])) = Inr (JObj r, Some w) \<and>
     map_of r ''lastSyncTs'' = Some (JStr ''t'') \<and> map_of r ''fileId'' = Some (JStr ''F'')) \<and>
   (\<exists>r w. bindNote ''n2'' [(''lastSyncTs'', JStr ''t'')]
       (Json (JObj [(''notes'', JObj [(''n1'', JObj [(''fileId'', JStr ''F'')])])])) = Inr (JObj r, Some w) \<and>
     map_of r ''lastSyncTs'' = Some (JStr ''t'') \<and> map_of r ''fileId'' = None)"
proof -
  let ?f = "Json (JObj [(''notes'', JObj [(''n1'', JObj [(''fileId'', JStr ''F'')])])])"
  let ?n = "[(''n1'', JObj [(''fileId'', JStr ''F'')])]"
  have h: "notes_of (loadMapping ?f) = Inr (JObj ?n)"
    by (simp add: loadMapping_obj_cases notes_of_def obj_put_def sorts_before_def array_index_def is_digit_def)
  have k1: "map_of ?n ''n1'' \<noteq> None \<or> ''n1'' \<notin> set object_prototype_names"
    by simp
  have n2: "''n2'' \<notin> set object_prototype_names"
    by (simp add: object_prototype_names_def)
  then have k2: "map_of ?n ''n2'' \<noteq> None \<or> ''n2'' \<notin> set object_prototype_names"
    by simp
  from C9_store_operations [OF h k1, of "[(''lastSyncTs'', JStr ''t'')]"]
       C9_store_operations [OF h k2, of "[(''lastSyncTs'', JStr ''t'')]"] h n2
  show ?thesis by (auto simp: record_map_def)
qed

text \<open>
  Claim C10, as stated, promises that a legacy flat map is promoted to
  \<open>{notes: flatMap, notebooks: {}}\<close>. A flat map with a note called \<open>notes\<close> is taken for
  a namespaced map instead: the binding of that note becomes the \<open>notes\<close> table.
\<close>

theorem C10_counterexample:
  "flat_note_map [(''notes'', JObj [(''fileId'', JStr ''F''), (''tabId'', JStr ''T'')])] \<and>
   loadMapping (Json (JObj [(''notes'', JObj [(''fileId'', JStr ''F''), (''tabId'', JStr ''T'')])])) =
     JObj [(''notes'', JObj [(''fileId'', JStr ''F''), (''tabId'', JStr ''T'')]),
           (''notebooks'', JObj [])] \<and>
   loadMapping (Json (JObj [(''notes'', JObj [(''fileId'', JStr ''F''), (''tabId'', JStr ''T'')])])) \<noteq>
     JObj [(''notes'', JObj [(''notes'', JObj [(''fileId'', JStr ''F''), (''tabId'', JStr ''T'')])]),
           (''notebooks'', JObj [])]"
  by (simp add: flat_note_map_def loadMapping_obj_cases obj_put_def sorts_before_def
      array_index_def is_digit_def)

text \<open>
  Claim C10, amended. \<open>loadMapping\<close> never throws (it is a total function whose \<open>catch\<close>
  branch is part of it). For a file that is absent, unreadable or not JSON it returns
  \<open>{notes: {}, notebooks: {}}\<close>; a legacy flat map that has no note called \<open>notes\<close> or
  \<open>notebooks\<close> is promoted to \<open>{notes: flatMap, notebooks: {}}\<close>; a namespaced map is
  returned with the missing one of \<open>notes\<close> and \<open>notebooks\<close> filled in as \<open>{}\<close>. In each
  of these cases the result holds both a \<open>notes\<close> map and a \<open>notebooks\<close> map.
\<close>

theorem C10_loadMapping_shapes:
  "(f = Absent \<or> f = Unreadable \<or> f = NotJson \<longrightarrow> loadMapping f = empty_mapping) \<and>
   (flat_note_map kvs \<and> map_of kvs ''notes'' = None \<and> map_of kvs ''notebooks'' = None \<longrightarrow>
      loadMapping (Json (JObj kvs)) = JObj [(''notes'', JObj kvs), (''notebooks'', JObj [])]) \<and>
   (namespaced_map kvs \<longrightarrow>
      loadMapping (Json (JObj kvs)) = JObj (fill ''notebooks'' (fill ''notes'' kvs))) \<and>
   (store_shape f \<longrightarrow> has_both_maps (loadMapping f))"
proof (intro conjI impI)
  show "loadMapping f = empty_mapping" if "f = Absent \<or> f = Unreadable \<or> f = NotJson"
    using that by (auto simp: loadMapping_def loadMapping_try_def)
  show "loadMapping (Json (JObj kvs)) = JObj [(''notes'', JObj kvs), (''notebooks'', JObj [])]"
    if "flat_note_map kvs \<and> map_of kvs ''notes'' = None \<and> map_of kvs ''notebooks'' = None"
    using that by (simp add: loadMapping_flat_free)
  show "loadMapping (Json (JObj kvs)) = JObj (fill ''notebooks'' (fill ''notes'' kvs))"
    if "namespaced_map kvs"
    using that by (rule loadMapping_namespaced)
  show "has_both_maps (loadMapping f)" if s: "store_shape f"
  proof (cases f)
    case (Json data)
    with s obtain o' where d: "data = JObj o'"
      by (cases data) (simp_all add: store_shape_def)
    from s Json d consider
        "map_of o' ''notes'' = None" "map_of o' ''notebooks'' = None" | "namespaced_map o'"
      by (auto simp: store_shape_def)
    then show ?thesis
    proof cases
      case 1
      then show ?thesis
        by (simp add: Json d loadMapping_flat_free has_both_maps_def)
    next
      case 2
      then show ?thesis
        by (simp add: Json d loadMapping_namespaced has_both_maps_namespaced)
    qed
  qed (simp_all add: loadMapping_def loadMapping_try_def empty_mapping_def has_both_maps_def)
qed

theorem C10_loadMapping_shapes_witness:
  "loadMapping Absent = empty_mapping \<and>
   loadMapping (Json (JObj [(''n1'', JObj [(''fileId'', JStr ''F'')])])) =
     JObj [(''notes'', JObj [(''n1'', JObj [(''fileId'', JStr ''F'')])]), (''notebooks'', JObj [])] \<and>
   has_both_maps (loadMapping (Json (JObj [(''n1'', JObj [(''fileId'', JStr ''F'')])]))) \<and>
   loadMapping (Json (JObj [(''notes'', JObj [])])) = empty_mapping"
proof -
  let ?kvs = "[(''n1'', JObj [(''fileId'', JStr ''F'')])]"
  have 1: "flat_note_map ?kvs \<and> map_of ?kvs ''notes'' = None \<and> map_of ?kvs ''notebooks'' = None"
    by (simp add: flat_note_map_def)
  then have 2: "store_shape (Json (JObj ?kvs))"
    by (simp add: store_shape_def)
  have 3: "namespaced_map [(''notes'', JObj [])]"
    by (simp add: namespaced_map_def)
  have 4: "fill ''notebooks'' (fill ''notes'' [(''notes'', JObj [])]) =
             [(''notes'', JObj []), (''notebooks'', JObj [])]"
    by (simp add: fill_def obj_put_def sorts_before_def array_index_def is_digit_def)
  from C10_loadMapping_shapes [of Absent ?kvs] C10_loadMapping_shapes [of "Json (JObj ?kvs)" ?kvs]
    C10_loadMapping_shapes [of Absent "[(''notes'', JObj [])]"] 1 2 3 4
  show ?thesis by (simp add: empty_mapping_def has_both_maps_def)
qed

section \<open>Properties of the change poller\<close>

lemma apply_written_fields [simp]:
  "state_file (apply_written wr w) = state_file w"
  "shadow (apply_written wr w) = shadow w"
  "clock (apply_written wr w) = clock w"
  by (cases wr; simp add: apply_written_def)+







lemma initIfNeeded_first_run:
  assumes "js_get (loadState (state_file w)) ''pageToken'' = Inr p" "\<not> truthy_opt p"
    and "getStartPageToken env = Inr tok"
  shows "initIfNeeded env w =
           (w\<lparr>state_file := Json (state_of_token tok),
              trace := trace w @ [StartTokenRequest, StateSaved (state_of_token tok)]\<rparr>, Inr None)"
  using assms by (simp add: initIfNeeded_def saveState_def)

lemma apply_written_trace: "\<exists>rest. trace (apply_written wr w) = trace w @ rest"
  by (cases wr) (simp_all add: apply_written_def)

lemma pull_note_trace:
  "\<exists>rest. trace (fst (pull_note mapping env w fid noteId wanted)) = trace w @ rest"
  by (auto simp: pull_note_def Let_def apply_written_def split: sum.splits option.splits prod.splits)

lemma process_change_trace:
  "\<exists>rest. trace (fst (process_change mapping env w ch)) = trace w @ rest"
  using pull_note_trace [of mapping env w "fileId ch"]
  by (auto simp: process_change_def apply_written_def split: sum.splits option.splits prod.splits)

lemma process_changes_trace:
  "\<exists>rest. trace (fst (process_changes mapping env w chs)) = trace w @ rest"
proof (induction chs arbitrary: w)
  case Nil
  then show ?case by simp
next
  case (Cons ch chs)
  obtain w' r where p: "process_change mapping env w ch = (w', r)"
    by (cases "process_change mapping env w ch")
  with process_change_trace [of mapping env w ch] obtain r1 where 1: "trace w' = trace w @ r1"
    by auto
  show ?case
  proof (cases r)
    case None
    from Cons.IH [of w'] obtain r2 where
      "trace (fst (process_changes mapping env w' chs)) = trace w' @ r2" by blast
    with p None 1 show ?thesis by simp
  next
    case (Some e)
    with p 1 show ?thesis by simp
  qed
qed

lemma pages_loop_trace:
  "\<exists>rest. trace (fst (pages_loop n mapping env w tok)) = trace w @ rest"
proof (induction n arbitrary: w tok)
  case 0
  then show ?case by simp
next
  case (Suc n)
  let ?w1 = "w\<lparr>trace := trace w @ [ListRequest tok]\<rparr>"
  show ?case
  proof (cases "truthy tok")
    case False
    then show ?thesis by simp
  next
    case True
    show ?thesis
    proof (cases "changes_list env tok")
      case (Inl e)
      with True show ?thesis by (simp add: Let_def)
    next
      case (Inr data)
      obtain w2 r where p: "process_changes mapping env ?w1 (changes data) = (w2, r)"
        by (cases "process_changes mapping env ?w1 (changes data)")
      with process_changes_trace [of mapping env ?w1 "changes data"]
      obtain r1 where 1: "trace w2 = trace w @ ListRequest tok # r1" by auto
      from Suc.IH [of w2] have 2: "\<exists>rest. trace (fst (pages_loop n mapping env w2 t)) = trace w2 @ rest" for t
        by blast
      show ?thesis
      proof (cases r)
        case (Some e)
        with True Inr p 1 show ?thesis by (simp add: Let_def)
      next
        case None
        with True Inr p 1 2 show ?thesis
          by (auto simp: Let_def saveState_def split: option.splits)
      qed
    qed
  qed
qed

lemma pages_loop_first_request:
  assumes "truthy tok"
  shows "\<exists>rest. trace (fst (pages_loop (Suc n) mapping env w tok)) = trace w @ ListRequest tok # rest"
proof -
  let ?w1 = "w\<lparr>trace := trace w @ [ListRequest tok]\<rparr>"
  show ?thesis
  proof (cases "changes_list env tok")
    case (Inl e)
    with assms show ?thesis by (simp add: Let_def)
  next
    case (Inr data)
    obtain w2 r where p: "process_changes mapping env ?w1 (changes data) = (w2, r)"
      by (cases "process_changes mapping env ?w1 (changes data)")
    with process_changes_trace [of mapping env ?w1 "changes data"]
    obtain r1 where 1: "trace w2 = trace w @ ListRequest tok # r1" by auto
    from pages_loop_trace [of n mapping env w2]
    have 2: "\<exists>rest. trace (fst (pages_loop n mapping env w2 t)) = trace w2 @ rest" for t
      by blast
    show ?thesis
    proof (cases r)
      case (Some e)
      with assms Inr p 1 show ?thesis by (simp add: Let_def)
    next
      case None
      with assms Inr p 1 2 show ?thesis
        by (auto simp: Let_def saveState_def split: option.splits)
    qed
  qed
qed

lemma findNoteIdByFileId_first_bound:
  assumes "notes_of (loadMapping f) = Inr (JObj notes)"
  shows "findNoteIdByFileId fid f = first_bound fid notes"
  using assms by (simp add: findNoteIdByFileId_def)

lemma first_bound_in_keys: "first_bound fid kvs = Inr (Some n) \<Longrightarrow> n \<in> fst ` set kvs"
  by (induction kvs) (auto split: sum.splits if_splits)

lemma map_fst_replace_value: "map fst (replace_value k v kvs) = map fst kvs"
  by (induction kvs) auto

lemma first_bound_replace:
  assumes "distinct (map fst kvs)" and "first_bound fid kvs = Inr (Some n)"
    and "map_of kvs n = Some b" and "js_get b' ''fileId'' = js_get b ''fileId''"
  shows "first_bound fid (replace_value n b' kvs) = Inr (Some n)"
  using assms
proof (induction kvs)
  case Nil
  then show ?case by simp
next
  case (Cons kv kvs)
  obtain k v where kv: "kv = (k, v)" by (cases kv)
  show ?case
  proof (cases "k = n")
    case True
    with Cons.prems kv have bv: "b = v" by simp
    from Cons.prems(1) kv True have "n \<notin> fst ` set kvs" by auto
    with first_bound_in_keys [of fid kvs n] have nf: "first_bound fid kvs \<noteq> Inr (Some n)" by blast
    from Cons.prems(2) kv True nf have "js_get v ''fileId'' = Inr (map_option JStr fid)"
      by (auto split: sum.splits if_splits)
    with Cons.prems(4) bv kv True show ?thesis by simp
  next
    case False
    with Cons.prems kv have fb: "first_bound fid kvs = Inr (Some n)"
      and nm: "\<exists>x. js_get v ''fileId'' = Inr x \<and> x \<noteq> map_option JStr fid"
      by (auto split: sum.splits if_splits)
    from Cons.prems kv False have "map_of kvs n = Some b" "distinct (map fst kvs)" by auto
    from Cons.IH [OF this(2) fb this(1) Cons.prems(4)] nm kv False show ?thesis
      by auto
  qed
qed



lemma process_change_pull:
  assumes "notes_of (loadMapping (mapping_file w)) = Inr (JObj notes)"
    and "first_bound (fileId ch) notes = Inr (Some noteId)" and "noteId \<noteq> []"
    and "map_of notes noteId = Some (JObj flds)" and "map_of flds ''tabId'' = Some wanted"
    and "truthy wanted" and "\<not> removed ch"
  shows "process_change mapping env w ch = pull_note mapping env w (fileId ch) noteId wanted"
  using assms
  by (simp add: process_change_def findNoteIdByFileId_first_bound getBinding_lookup)










lemma js_get_field [simp]:
  "inherited k = None \<Longrightarrow> js_get (JObj flds) k = Inr (map_of flds k)"
  by simp









lemma pull_note_first_request:
  "\<exists>rest. trace (fst (pull_note mapping env w fid noteId wanted)) = trace w @ GetRequest fid # rest"
  by (auto simp: pull_note_def Let_def apply_written_def split: sum.splits option.splits prod.splits)

text \<open>
  Claim C5, as stated, says that after a change has marked a bound remote object removed,
  further pulls for that note are suppressed until the note is rebound. Nothing in the
  poller reads \<open>accessLost\<close>: on the sample store, a removal of \<open>F\<close> sets the flag on
  \<open>n1\<close>, and the next change to \<open>F\<close> gets the document and writes the shadow file of
  \<open>n1\<close> all the same.
\<close>

theorem C5_counterexample:
  "getBinding ''n1''
     (mapping_file (fst (process_change fallback_mapping sample_remote (sample_world Absent)
        \<lparr>fileId = Some ''F'', removed = True\<rparr>))) =
     Inr (JObj [(''fileId'', JStr ''F''), (''tabId'', JStr ''T''), (''accessLost'', JBool True)]) \<and>
   shadow (fst (process_change fallback_mapping sample_remote
      (fst (process_change fallback_mapping sample_remote (sample_world Absent)
         \<lparr>fileId = Some ''F'', removed = True\<rparr>))
      \<lparr>fileId = Some ''F'', removed = False\<rparr>)) ''n1'' = Some ''Hi'' \<and>
   trace (fst (process_change fallback_mapping sample_remote
      (fst (process_change fallback_mapping sample_remote (sample_world Absent)
         \<lparr>fileId = Some ''F'', removed = True\<rparr>))
      \<lparr>fileId = Some ''F'', removed = False\<rparr>)) ! 1 = GetRequest (Some ''F'')"
  by code_simp

text \<open>
  Claim C5, amended. When a change marks removed a remote object that the reverse lookup
  resolves to a note (with a non-empty id and an object as its Binding), the poller sets
  \<open>accessLost = true\<close> on that Binding, keeping its other fields, saves the store, and
  skips the pull for that change: no document is fetched and no shadow file is written.
  The flag is only recorded: when a later change to the same file is not marked removed
  and the Binding has a tab, the document is requested again.
\<close>

theorem C5_removed_change_marks_binding:
  assumes "notes_of (loadMapping (mapping_file w)) = Inr (JObj notes)"
    and "findNoteIdByFileId (fileId ch) (mapping_file w) = Inr (Some noteId)"
    and "noteId \<noteq> []"
    and "map_of notes noteId = Some (JObj r)"
    and "removed ch"
  shows "\<exists>w' r' m. process_change mapping env w ch = (w', None) \<and>
           getBinding noteId (mapping_file w') = Inr (JObj r') \<and>
           map_of r' = (map_of r)(''accessLost'' \<mapsto> JBool True) \<and>
           shadow w' = shadow w \<and> state_file w' = state_file w \<and>
           trace w' = trace w @ [MappingSaved m] \<and>
           (\<forall>wanted. distinct (map fst notes) \<and> map_of r ''tabId'' = Some wanted \<and> truthy wanted
              \<longrightarrow> (\<exists>rest. trace (fst (process_change mapping env w' (ch\<lparr>removed := False\<rparr>))) =
                            trace w' @ GetRequest (fileId ch) # rest))"
proof -
  let ?r' = "obj_put ''accessLost'' (JBool True) r"
  let ?notes' = "obj_put noteId (JObj ?r') notes"
  let ?m = "with_notes (loadMapping (mapping_file w)) (JObj ?notes')"
  let ?w' = "apply_written (Some ?m) w"
  let ?ch2 = "ch\<lparr>removed := False\<rparr>"
  have a: "markAccessLost noteId (mapping_file w) = Inr (JObj ?r', Some ?m)"
    by (rule markAccessLost_present [OF assms(1) assms(4)])
  have p: "process_change mapping env w ch = (?w', None)"
    using assms(2,3,5) a by (simp add: process_change_def)
  have l: "loadMapping (Json ?m) = ?m"
    and n: "notes_of ?m = Inr (JObj ?notes')"
    using reload_with_notes [OF assms(1)] by blast+
  have mf: "mapping_file ?w' = Json ?m"
    by (simp add: apply_written_def)
  have h': "notes_of (loadMapping (mapping_file ?w')) = Inr (JObj ?notes')"
    by (simp add: mf l n)
  have g: "getBinding noteId (mapping_file ?w') = Inr (JObj ?r')"
    using getBinding_lookup [OF h', of noteId] by (simp add: map_of_obj_put)
  have t: "trace ?w' = trace w @ [MappingSaved ?m]"
    by (simp add: apply_written_def)
  have later: "\<exists>rest. trace (fst (process_change mapping env ?w' ?ch2)) =
                 trace ?w' @ GetRequest (fileId ch) # rest"
    if d: "distinct (map fst notes)" and tb: "map_of r ''tabId'' = Some wanted"
      and tr: "truthy wanted" for wanted
  proof -
    have fb: "first_bound (fileId ch) notes = Inr (Some noteId)"
      using assms(1,2) by (simp add: findNoteIdByFileId_first_bound)
    have rp: "?notes' = replace_value noteId (JObj ?r') notes"
      using assms(4) by (simp add: obj_put_def)
    have "js_get (JObj ?r') ''fileId'' = js_get (JObj r) ''fileId''"
      by (simp add: map_of_obj_put)
    from first_bound_replace [OF d fb assms(4) this]
    have fb': "first_bound (fileId ?ch2) ?notes' = Inr (Some noteId)"
      by (simp add: rp)
    have rc': "map_of ?notes' noteId = Some (JObj ?r')"
      by (simp add: map_of_obj_put)
    have tb': "map_of ?r' ''tabId'' = Some wanted"
      by (simp add: map_of_obj_put tb)
    have "process_change mapping env ?w' ?ch2 =
            pull_note mapping env ?w' (fileId ?ch2) noteId wanted"
      by (rule process_change_pull [OF h' fb' assms(3) rc' tb' tr]) simp
    with pull_note_first_request [of mapping env ?w' "fileId ch" noteId wanted]
    show ?thesis by simp
  qed
  from p g t later show ?thesis
    by (auto simp: map_of_obj_put)
qed

theorem C5_removed_change_marks_binding_witness:
  "\<exists>w' r' m. process_change fallback_mapping sample_remote (sample_world Absent)
               \<lparr>fileId = Some ''F'', removed = True\<rparr> = (w', None) \<and>
      getBinding ''n1'' (mapping_file w') = Inr (JObj r') \<and>
      map_of r' = (map_of [(''fileId'', JStr ''F''), (''tabId'', JStr ''T'')])
                    (''accessLost'' \<mapsto> JBool True) \<and>
      shadow w' = shadow (sample_world Absent) \<and>
      state_file w' = state_file (sample_world Absent) \<and>
      trace w' = trace (sample_world Absent) @ [MappingSaved m] \<and>
      (\<exists>rest. trace (fst (process_change fallback_mapping sample_remote w'
                             \<lparr>fileId = Some ''F'', removed = False\<rparr>)) =
                trace w' @ GetRequest (Some ''F'') # rest)"
proof -
  have 1: "notes_of (loadMapping (mapping_file (sample_world Absent))) = Inr (JObj sample_notes)"
    by (simp add: sample_world_def sample_store_def loadMapping_obj_cases notes_of_def)
  have 2: "findNoteIdByFileId (fileId \<lparr>fileId = Some ''F'', removed = True\<rparr>)
             (mapping_file (sample_world Absent)) = Inr (Some ''n1'')"
    using 1 by (simp add: findNoteIdByFileId_first_bound sample_notes_def)
  have 3: "map_of sample_notes ''n1'' = Some (JObj [(''fileId'', JStr ''F''), (''tabId'', JStr ''T'')])"
    by (simp add: sample_notes_def)
  have 4: "distinct (map fst sample_notes) \<and>
           map_of [(''fileId'', JStr ''F''), (''tabId'', JStr ''T'')] ''tabId'' = Some (JStr ''T'') \<and>
           truthy (JStr ''T'')"
    by (simp add: sample_notes_def)
  from C5_removed_change_marks_binding [OF 1 2 _ 3, of fallback_mapping sample_remote]
  obtain w' r' m where
    a: "process_change fallback_mapping sample_remote (sample_world Absent)
          \<lparr>fileId = Some ''F'', removed = True\<rparr> = (w', None)"
      "getBinding ''n1'' (mapping_file w') = Inr (JObj r')"
      "map_of r' = (map_of [(''fileId'', JStr ''F''), (''tabId'', JStr ''T'')])
                     (''accessLost'' \<mapsto> JBool True)"
      "shadow w' = shadow (sample_world Absent)"
      "state_file w' = state_file (sample_world Absent)"
      "trace w' = trace (sample_world Absent) @ [MappingSaved m]"
    and b: "\<forall>wanted. distinct (map fst sample_notes) \<and>
              map_of [(''fileId'', JStr ''F''), (''tabId'', JStr ''T'')] ''tabId'' = Some wanted \<and>
              truthy wanted \<longrightarrow>
              (\<exists>rest. trace (fst (process_change fallback_mapping sample_remote w'
                                     (\<lparr>fileId = Some ''F'', removed = True\<rparr>\<lparr>removed := False\<rparr>))) =
                        trace w' @ GetRequest (fileId \<lparr>fileId = Some ''F'', removed = True\<rparr>) # rest)"
    by auto
  from b 4 have c: "\<exists>rest. trace (fst (process_change fallback_mapping sample_remote w'
                             \<lparr>fileId = Some ''F'', removed = False\<rparr>)) =
                trace w' @ GetRequest (Some ''F'') # rest"
    by simp
  from a c show ?thesis by blast
qed

text \<open>
  Claim C6. On the first run, with no stored cursor, the poller fetches the feed's current
  position token and saves it, and does nothing else: it lists no changes and pulls
  nothing. In watch mode the loop then starts from the saved token, so the first request
  to the feed asks for the changes from that token on.
\<close>

theorem C6_first_run_only_saves_cursor:
  assumes "js_get (loadState (state_file w)) ''pageToken'' = Inr p" and "\<not> truthy_opt p"
    and "getStartPageToken env = Inr tok"
  shows
    "initIfNeeded env w =
       (w\<lparr>state_file := Json (state_of_token tok),
          trace := trace w @ [StartTokenRequest, StateSaved (state_of_token tok)]\<rparr>, Inr None) \<and>
     main False fuel mapping env ticks w =
       (w\<lparr>state_file := Json (state_of_token tok),
          trace := trace w @ [StartTokenRequest, StateSaved (state_of_token tok)]\<rparr>, Finished) \<and>
     shadow (fst (main False fuel mapping env ticks w)) = shadow w \<and>
     mapping_file (fst (main False fuel mapping env ticks w)) = mapping_file w \<and>
     main True fuel mapping env ticks w =
       watch_loop fuel mapping ticks
         (w\<lparr>state_file := Json (state_of_token tok),
            trace := trace w @ [StartTokenRequest, StateSaved (state_of_token tok)]\<rparr>) \<and>
     (\<forall>t env'. tok = Some t \<and> truthy t \<longrightarrow>
        (\<exists>rest. trace (fst (processOnce (Suc fuel) mapping env'
                    (w\<lparr>state_file := Json (state_of_token tok),
                       trace := trace w @ [StartTokenRequest, StateSaved (state_of_token tok)]\<rparr>))) =
                  trace w @ [StartTokenRequest, StateSaved (state_of_token tok), ListRequest t] @ rest))"
proof -
  let ?w1 = "w\<lparr>state_file := Json (state_of_token tok),
               trace := trace w @ [StartTokenRequest, StateSaved (state_of_token tok)]\<rparr>"
  have i: "initIfNeeded env w = (?w1, Inr None)"
    by (rule initIfNeeded_first_run [OF assms])
  have m: "main False fuel mapping env ticks w = (?w1, Finished)"
    by (simp add: main_def i)
  have mw: "main True fuel mapping env ticks w = watch_loop fuel mapping ticks ?w1"
    by (simp add: main_def i)
  have f: "\<exists>rest. trace (fst (processOnce (Suc fuel) mapping env' ?w1)) =
             trace w @ [StartTokenRequest, StateSaved (state_of_token tok), ListRequest t] @ rest"
    if "tok = Some t \<and> truthy t" for t env'
  proof -
    from that have "processOnce (Suc fuel) mapping env' ?w1 = pages_loop (Suc fuel) mapping env' ?w1 t"
      by (simp add: processOnce_def loadState_def state_of_token_def)
    with pages_loop_first_request [of t fuel mapping env' ?w1] that show ?thesis
      by auto
  qed
  from i m mw f show ?thesis by simp
qed

theorem C6_first_run_only_saves_cursor_witness:
  "main False 3 fallback_mapping sample_remote [] (sample_world Absent) =
     ((sample_world Absent)\<lparr>state_file := Json (JObj [(''pageToken'', JStr ''C0'')]),
        trace := [StartTokenRequest, StateSaved (JObj [(''pageToken'', JStr ''C0'')])]\<rparr>,
      Finished) \<and>
   shadow (fst (main False 3 fallback_mapping sample_remote [] (sample_world Absent))) = no_shadow \<and>
   mapping_file (fst (main False 3 fallback_mapping sample_remote [] (sample_world Absent))) =
     sample_store \<and>
   (\<exists>rest. trace (fst (processOnce 4 fallback_mapping sample_remote
                (fst (main False 3 fallback_mapping sample_remote [] (sample_world Absent))))) =
             [StartTokenRequest, StateSaved (JObj [(''pageToken'', JStr ''C0'')]),
              ListRequest (JStr ''C0'')] @ rest)"
proof -
  have 1: "js_get (loadState (state_file (sample_world Absent))) ''pageToken'' = Inr None"
    by (simp add: sample_world_def loadState_def)
  have 2: "\<not> truthy_opt None" by simp
  have 3: "getStartPageToken sample_remote = Inr (Some (JStr ''C0''))"
    by (simp add: sample_remote_def)
  note t = C6_first_run_only_saves_cursor [OF 1 2 3, of 3 fallback_mapping "[]"]
  from t have a: "main False 3 fallback_mapping sample_remote [] (sample_world Absent) =
     ((sample_world Absent)\<lparr>state_file := Json (state_of_token (Some (JStr ''C0''))),
        trace := trace (sample_world Absent) @
          [StartTokenRequest, StateSaved (state_of_token (Some (JStr ''C0'')))]\<rparr>, Finished)"
    by blast
  from t have b: "\<exists>rest. trace (fst (processOnce (Suc 3) fallback_mapping sample_remote
      ((sample_world Absent)\<lparr>state_file := Json (state_of_token (Some (JStr ''C0''))),
        trace := trace (sample_world Absent) @
          [StartTokenRequest, StateSaved (state_of_token (Some (JStr ''C0'')))]\<rparr>))) =
      trace (sample_world Absent) @
        [StartTokenRequest, StateSaved (state_of_token (Some (JStr ''C0''))),
         ListRequest (JStr ''C0'')] @ rest"
    by simp
  from a b show ?thesis
    by (simp add: state_of_token_def sample_world_def)
qed




section \<open>Properties of the push scripts\<close>


lemma pull_compare_push_submits:
  assumes "findTab wanted (tabs meta) = Some tab"
    and "getTabText tab \<noteq> localText" and "last_endIndex tab = Inr n"
  shows "pull_compare_push c1 c2 docId wanted (Inr meta) (Inr localText) batchUpdate =
           (case batchUpdate \<lparr>documentId = docId, requests = replace_requests wanted n localText,
                               requiredRevisionId = revisionId meta\<rparr> of
              Inr ok \<Rightarrow>
                \<lparr>outcome = Exit 0, messages = [Pushed],
                  submitted = [\<lparr>documentId = docId,
                                 requests = replace_requests wanted n localText,
                                 requiredRevisionId = revisionId meta\<rparr>]\<rparr>
            | Inl err \<Rightarrow>
                \<lparr>outcome = Exit c2, messages = [PushFailed err],
                  submitted = [\<lparr>documentId = docId,
                                 requests = replace_requests wanted n localText,
                                 requiredRevisionId = revisionId meta\<rparr>]\<rparr>)"
  using assms by (simp add: pull_compare_push_def Let_def)


lemma stale_update_rejected:
  assumes "fault svc = None" and "documentId b = Some (JStr (doc_id svc))"
    and "requiredRevisionId b \<noteq> revisionId (current svc)"
  shows "service_batchUpdate svc b = (Inl RevisionMismatch, svc)"
  using assms by (simp add: service_batchUpdate_def)

text \<open>The remote edits, and a push followed by a second push of the same text.\<close>

lemma tabId_edit_tab [simp]: "tabId (edit_tab reqs t) = tabId t"
  by (cases t) simp

lemma childTabs_edit_tab [simp]: "childTabs (edit_tab reqs t) = map (edit_tab reqs) (childTabs t)"
  by (cases t) simp













text \<open>
  Claim C1, as stated, takes the guard of a push to be the \<open>lastKnownRevision\<close> stored in
  the binding, and has the conflict surfaced as an outcome of its own, distinct from a
  generic failure. The scripts never read the stored revision: the guard is the revision
  that their own pull has just returned. With \<open>R1\<close> stored for \<open>n1\<close> and the remote
  document at \<open>R2\<close>, the update carries \<open>R2\<close>, is accepted, and replaces the text of the
  tab. And the scripts have one \<open>catch\<close> for everything \<open>batchUpdate\<close> throws: a push
  rejected for its stale revision and a push that failed on a broken connection both
  print \<open>Push failed (possible conflict)\<close> with the error, and both exit with status 4.
\<close>

theorem C1_counterexample:
  "getBinding ''n1'' synced_store =
     Inr (JObj [(''fileId'', JStr ''F''), (''tabId'', JStr ''T''),
                (''lastKnownRevisionId'', JStr ''R1''),
                (''lastSyncTs'', JStr ''2025-01-01T00:00:00.000Z'')]) \<and>
   revisionId (current edited_service) = ''R2'' \<and>
   pullPushByNote ''n1'' ''note.md'' synced_store (Inr (current edited_service)) (Inr ''Hello'')
     (answer edited_service) =
     \<lparr>outcome = Exit 0, messages = [Pushed],
       submitted = [\<lparr>documentId = Some (JStr ''F''),
                      requests = [DeleteContentRange (Some (JStr ''T'')) 1 3,
                                  InsertText (Some (JStr ''T'')) 1 ''Hello''],
                      requiredRevisionId = ''R2''\<rparr>]\<rparr> \<and>
   map getTabText (tabs (current edited_service)) = [''Hi'' @ [LF]] \<and>
   map getTabText
     (tabs (current (service_after edited_service
        (submitted (pullPushByNote ''n1'' ''note.md'' synced_store (Inr (current edited_service))
                      (Inr ''Hello'') (answer edited_service)))))) = [''Hello'' @ [LF]] \<and>
   outcome (pullPushByNote ''n1'' ''note.md'' sample_store (Inr sample_doc) (Inr ''Hello'')
              conflict_thrown) = Exit 4 \<and>
   messages (pullPushByNote ''n1'' ''note.md'' sample_store (Inr sample_doc) (Inr ''Hello'')
              conflict_thrown) = [PushFailed RevisionMismatch] \<and>
   outcome (pullPushByNote ''n1'' ''note.md'' sample_store (Inr sample_doc) (Inr ''Hello'')
              connection_lost) = Exit 4 \<and>
   messages (pullPushByNote ''n1'' ''note.md'' sample_store (Inr sample_doc) (Inr ''Hello'')
              connection_lost) = [PushFailed (ApiError ''ECONNRESET'')]"
  by code_simp


text \<open>
  Claim C1, amended. The guard of a push is the revision that the script's own pull
  returned, not a revision stored in the binding. When the remote document's revision is a different one by the time the update
  is submitted, the one \<open>batchUpdate\<close> call the script makes carries the pulled revision
  and is rejected, the remote service is left as it was, and the script does not try
  again: it prints the push failure with the error and exits with its push-failure status
  (4 in \<open>pullPushByNote.js\<close>, 3 in \<open>pullPush.js\<close>). Whatever else \<open>batchUpdate\<close> throws
  ends the script with the same status.
\<close>

theorem C1_stale_revision_rejected:
  assumes "findTab wanted (tabs meta) = Some tab"
    and "getTabText tab \<noteq> localText" and "last_endIndex tab = Inr n"
    and "docId = Some (JStr (doc_id at_push))" and "fault at_push = None"
    and "revisionId (current at_push) \<noteq> revisionId meta"
  shows
    "pull_compare_push no_tab_code failed_code docId wanted (Inr meta) (Inr localText)
        (answer at_push) =
       \<lparr>outcome = Exit failed_code, messages = [PushFailed RevisionMismatch],
         submitted = [\<lparr>documentId = docId, requests = replace_requests wanted n localText,
                        requiredRevisionId = revisionId meta\<rparr>]\<rparr> \<and>
     service_after at_push
       (submitted (pull_compare_push no_tab_code failed_code docId wanted (Inr meta)
                     (Inr localText) (answer at_push))) = at_push \<and>
     (noteId \<noteq> [] \<and> localPath \<noteq> [] \<and> getBinding noteId store = Inr binding \<and> truthy binding \<and>
      js_get binding ''fileId'' = Inr docId \<and> js_get binding ''tabId'' = Inr wanted \<longrightarrow>
        pullPushByNote noteId localPath store (Inr meta) (Inr localText) (answer at_push) =
          \<lparr>outcome = Exit 4, messages = [PushFailed RevisionMismatch],
            submitted = [\<lparr>documentId = docId, requests = replace_requests wanted n localText,
                           requiredRevisionId = revisionId meta\<rparr>]\<rparr>) \<and>
     (docArg \<noteq> [] \<and> tabArg \<noteq> [] \<and> localPath \<noteq> [] \<and> docId = Some (JStr docArg) \<and>
      wanted = Some (JStr tabArg) \<longrightarrow>
        pullPush docArg tabArg localPath (Inr meta) (Inr localText) (answer at_push) =
          \<lparr>outcome = Exit 3, messages = [PushFailed RevisionMismatch],
            submitted = [\<lparr>documentId = docId, requests = replace_requests wanted n localText,
                           requiredRevisionId = revisionId meta\<rparr>]\<rparr>) \<and>
     (\<forall>batchUpdate e.
        batchUpdate \<lparr>documentId = docId, requests = replace_requests wanted n localText,
                     requiredRevisionId = revisionId meta\<rparr> = Inl e \<longrightarrow>
        pull_compare_push no_tab_code failed_code docId wanted (Inr meta) (Inr localText)
          batchUpdate =
          \<lparr>outcome = Exit failed_code, messages = [PushFailed e],
            submitted = [\<lparr>documentId = docId, requests = replace_requests wanted n localText,
                           requiredRevisionId = revisionId meta\<rparr>]\<rparr>)"
proof -
  let ?b = "\<lparr>documentId = docId, requests = replace_requests wanted n localText,
              requiredRevisionId = revisionId meta\<rparr>"
  have r: "service_batchUpdate at_push ?b = (Inl RevisionMismatch, at_push)"
    using assms(4-6) by (simp add: stale_update_rejected)
  have f: "pull_compare_push c1 c2 docId wanted (Inr meta) (Inr localText) batchUpdate =
             \<lparr>outcome = Exit c2, messages = [PushFailed e], submitted = [?b]\<rparr>"
    if "batchUpdate ?b = Inl e" for c1 c2 batchUpdate e
    using pull_compare_push_submits [OF assms(1-3), of c1 c2 docId batchUpdate] that by simp
  have a: "answer at_push ?b = Inl RevisionMismatch"
    by (simp add: answer_def r)
  have s: "service_after at_push [?b] = at_push"
    by (simp add: service_after_def r)
  have c: "pull_compare_push c1 c2 docId wanted (Inr meta) (Inr localText) (answer at_push) =
             \<lparr>outcome = Exit c2, messages = [PushFailed RevisionMismatch], submitted = [?b]\<rparr>"
    for c1 c2
    using a by (rule f)
  have s': "service_after at_push
              (submitted (pull_compare_push no_tab_code failed_code docId wanted (Inr meta)
                            (Inr localText) (answer at_push))) = at_push"
    by (simp add: c s)
  show ?thesis
    using c f s' by (auto simp: pullPushByNote_def pullPush_def)
qed

theorem C1_stale_revision_rejected_witness:
  "pullPushByNote ''n1'' ''note.md'' sample_store (Inr sample_doc) (Inr ''Hello'')
     (answer edited_service) =
     \<lparr>outcome = Exit 4, messages = [PushFailed RevisionMismatch],
       submitted = [\<lparr>documentId = Some (JStr ''F''),
                      requests = [DeleteContentRange (Some (JStr ''T'')) 1 3,
                                  InsertText (Some (JStr ''T'')) 1 ''Hello''],
                      requiredRevisionId = ''R1''\<rparr>]\<rparr> \<and>
   service_after edited_service
     (submitted (pull_compare_push 3 4 (Some (JStr ''F'')) (Some (JStr ''T'')) (Inr sample_doc)
                   (Inr ''Hello'') (answer edited_service))) = edited_service \<and>
   pullPush ''F'' ''T'' ''note.md'' (Inr sample_doc) (Inr ''Hello'') (answer edited_service) =
     \<lparr>outcome = Exit 3, messages = [PushFailed RevisionMismatch],
       submitted = [\<lparr>documentId = Some (JStr ''F''),
                      requests = [DeleteContentRange (Some (JStr ''T'')) 1 3,
                                  InsertText (Some (JStr ''T'')) 1 ''Hello''],
                      requiredRevisionId = ''R1''\<rparr>]\<rparr> \<and>
   pull_compare_push 3 4 (Some (JStr ''F'')) (Some (JStr ''T'')) (Inr sample_doc) (Inr ''Hello'')
     (answer broken_service) =
     \<lparr>outcome = Exit 4, messages = [PushFailed (ApiError ''ECONNRESET'')],
       submitted = [\<lparr>documentId = Some (JStr ''F''),
                      requests = [DeleteContentRange (Some (JStr ''T'')) 1 3,
                                  InsertText (Some (JStr ''T'')) 1 ''Hello''],
                      requiredRevisionId = ''R1''\<rparr>]\<rparr>"
proof -
  have 2: "findTab (Some (JStr ''T'')) (tabs sample_doc) = Some sample_tab"
    by (simp add: findTab_def sample_doc_def sample_tab_def)
  have 3: "getTabText sample_tab \<noteq> ''Hello''"
    by (simp add: getTabText_def sample_tab_def run_text_of_def)
  have 4: "last_endIndex sample_tab = Inr 4"
    by (simp add: last_endIndex_def sample_tab_def)
  have 5: "Some (JStr ''F'') = Some (JStr (doc_id edited_service))"
    by (simp add: edited_service_def sample_service_def)
  have 6: "fault edited_service = None"
    by (simp add: edited_service_def sample_service_def)
  have 7: "revisionId (current edited_service) \<noteq> revisionId sample_doc"
    by (simp add: edited_service_def sample_service_def sample_doc_def)
  have 8: "getBinding ''n1'' sample_store =
             Inr (JObj [(''fileId'', JStr ''F''), (''tabId'', JStr ''T'')])"
    by (simp add: getBinding_def sample_store_def sample_notes_def loadMapping_obj_cases
        notes_of_def)
  have 9: "answer broken_service
             \<lparr>documentId = Some (JStr ''F''),
               requests = replace_requests (Some (JStr ''T'')) 4 ''Hello'',
               requiredRevisionId = revisionId sample_doc\<rparr> = Inl (ApiError ''ECONNRESET'')"
    by (simp add: answer_def service_batchUpdate_def broken_service_def sample_service_def)
  note t = C1_stale_revision_rejected [OF 2 3 4 5 6 7, of 3 4 "''n1''" "''note.md''" sample_store
        "JObj [(''fileId'', JStr ''F''), (''tabId'', JStr ''T'')]" "''F''" "''T''"]
  from t have a: "service_after edited_service
     (submitted (pull_compare_push 3 4 (Some (JStr ''F'')) (Some (JStr ''T'')) (Inr sample_doc)
                   (Inr ''Hello'') (answer edited_service))) = edited_service"
    by blast
  from t 8 have b: "pullPushByNote ''n1'' ''note.md'' sample_store (Inr sample_doc) (Inr ''Hello'')
     (answer edited_service) =
     \<lparr>outcome = Exit 4, messages = [PushFailed RevisionMismatch],
       submitted = [\<lparr>documentId = Some (JStr ''F''),
                      requests = replace_requests (Some (JStr ''T'')) 4 ''Hello'',
                      requiredRevisionId = revisionId sample_doc\<rparr>]\<rparr>"
    by simp
  from t have c: "pullPush ''F'' ''T'' ''note.md'' (Inr sample_doc) (Inr ''Hello'')
     (answer edited_service) =
     \<lparr>outcome = Exit 3, messages = [PushFailed RevisionMismatch],
       submitted = [\<lparr>documentId = Some (JStr ''F''),
                      requests = replace_requests (Some (JStr ''T'')) 4 ''Hello'',
                      requiredRevisionId = revisionId sample_doc\<rparr>]\<rparr>"
    by simp
  from t 9 have d: "pull_compare_push 3 4 (Some (JStr ''F'')) (Some (JStr ''T'')) (Inr sample_doc)
     (Inr ''Hello'') (answer broken_service) =
     \<lparr>outcome = Exit 4, messages = [PushFailed (ApiError ''ECONNRESET'')],
       submitted = [\<lparr>documentId = Some (JStr ''F''),
                      requests = replace_requests (Some (JStr ''T'')) 4 ''Hello'',
                      requiredRevisionId = revisionId sample_doc\<rparr>]\<rparr>"
    by blast
  from a b c d show ?thesis
    by (simp add: replace_requests_def sample_doc_def)
qed





end
